theory Spec2Isabelle
  imports Complex_Main "HOL-Library.Char_ord" "HOL-Library.List_Lexorder"
begin

section \<open>JavaScript numbers\<close>

text \<open>
  A \<^verbatim>\<open>Number\<close> is an IEEE 754 binary64 value: a finite double, given by its
  rational value (the two zeros are not told apart), an infinity, or NaN. The seat
  counts of a project are such numbers: \<^verbatim>\<open>seats\<close> comes from the request body,
  where it need not be whole, and the routes add and subtract 1 in double arithmetic.
\<close>

datatype number = Finite rat | PosInfinity | NegInfinity | NaN

text \<open>Rounding to the nearest integer, a tie going to the even one.\<close>

definition roundHalfEven :: "rat \<Rightarrow> int" where
  "roundHalfEven r =
     (let f = \<lfloor>r\<rfloor>; d = r - of_int f
      in if d < 1 / 2 then f else if 1 / 2 < d then f + 1 else if even f then f else f + 1)"

text \<open>
  \<open>normalize m e\<close> rescales \<open>m * 2 powi e\<close> until the significand \<open>m\<close> has 53
  bits, that is \<open>2 ^ 52 \<le> \<bar>m\<bar> < 2 ^ 53\<close>, or the exponent reaches the least one of
  the format (\<open>- 1074\<close>, the subnormal numbers) or passes the greatest.
\<close>

function normalize :: "rat \<Rightarrow> int \<Rightarrow> rat \<times> int" where
  "normalize m e =
     (if 2 ^ 53 \<le> \<bar>m\<bar> \<and> e < 972 then normalize (m / 2) (e + 1)
      else if \<bar>m\<bar> < 2 ^ 52 \<and> - 1074 < e then normalize (m * 2) (e - 1)
      else (m, e))"
  by pat_completeness auto
termination
  by (relation "measure (\<lambda>(m, e). if 2 ^ 53 \<le> \<bar>m\<bar> then 2100 + nat (972 - e)
                                    else nat (e + 1074))")
     auto

text \<open>The double nearest to a rational (round to nearest, ties to even): what an
  arithmetic operation returns for its exact result.\<close>

definition toNumber :: "rat \<Rightarrow> number" where
  "toNumber q =
     (if q = 0 then Finite 0
      else let (m, e) = normalize q 0;
               r = of_int (roundHalfEven m) * 2 powi e
           in if 2 ^ 1024 \<le> \<bar>r\<bar> then (if 0 < q then PosInfinity else NegInfinity)
              else Finite r)"

text \<open>\<^verbatim>\<open>x + y\<close>, \<^verbatim>\<open>-y\<close>, \<^verbatim>\<open>x - y\<close> and \<^verbatim>\<open>x <= y\<close> on numbers.\<close>

fun jsPlus :: "number \<Rightarrow> number \<Rightarrow> number" where
  "jsPlus (Finite a) (Finite b) = toNumber (a + b)"
| "jsPlus NaN y = NaN"
| "jsPlus x NaN = NaN"
| "jsPlus PosInfinity NegInfinity = NaN"
| "jsPlus NegInfinity PosInfinity = NaN"
| "jsPlus PosInfinity y = PosInfinity"
| "jsPlus NegInfinity y = NegInfinity"
| "jsPlus x PosInfinity = PosInfinity"
| "jsPlus x NegInfinity = NegInfinity"

fun jsNeg :: "number \<Rightarrow> number" where
  "jsNeg (Finite a) = Finite (- a)"
| "jsNeg PosInfinity = NegInfinity"
| "jsNeg NegInfinity = PosInfinity"
| "jsNeg NaN = NaN"

definition jsMinus :: "number \<Rightarrow> number \<Rightarrow> number" where
  "jsMinus x y = jsPlus x (jsNeg y)"

fun jsLe :: "number \<Rightarrow> number \<Rightarrow> bool" where
  "jsLe (Finite a) (Finite b) = (a \<le> b)"
| "jsLe NaN y = False"
| "jsLe x NaN = False"
| "jsLe NegInfinity y = True"
| "jsLe x PosInfinity = True"
| "jsLe PosInfinity y = False"
| "jsLe x NegInfinity = False"

text \<open>A whole number up to \<open>2 ^ 53\<close>: there adding and subtracting 1 is exact.\<close>

definition wholeNumber :: "number \<Rightarrow> bool" where
  "wholeNumber x =
     (case x of Finite q \<Rightarrow> q = of_int \<lfloor>q\<rfloor> \<and> \<bar>q\<bar> \<le> 2 ^ 53 | _ \<Rightarrow> False)"

section \<open>The documents of server.js\<close>

text \<open>
  The three mongoose models of server.js (\<^verbatim>\<open>User\<close>, \<^verbatim>\<open>Project\<close>,
  \<^verbatim>\<open>Application\<close>) are records; a collection is the list of its documents in
  insertion order. An ObjectId is a natural number. Of each schema the fields that the
  review, assignment and application routes read or write are kept; passwords, names
  and the \<^verbatim>\<open>Date\<close> fields (createdAt, updatedAt, appliedAt, reviewedAt) are
  left out. \<^verbatim>\<open>projectsReviewed\<close> only counts up and down from 0 and is an integer;
  \<^verbatim>\<open>seats\<close>, \<^verbatim>\<open>seatsAvailable\<close> and \<^verbatim>\<open>cgpa\<close> are numbers as the schema casts
  them from the request body, NaN standing for a value the cast refuses. A string is
  the list of its code units, so \<^verbatim>\<open>s.length\<close> is \<open>length s\<close>.
\<close>

type_synonym oid = nat

datatype role = Student | Faculty | Admin

datatype project_status = Pending | Approved | Rejected

datatype application_status = AppPending | AppSelected | AppRejected

record user =
  uid :: oid
  loginId :: string
  role :: role
  areaOfResearch :: "string option"
  projectsReviewed :: int

record project =
  pid :: oid
  title :: string
  abstract :: string
  timeline :: string
  seats :: number
  seatsAvailable :: number
  faculty :: oid
  status :: project_status
  reviewedBy :: "oid list"
  rejectionComments :: "(oid \<times> string) list"

record application =
  aid :: oid
  student :: oid
  project :: oid
  appStatus :: application_status
  cgpa :: "number option"
  skills :: "string option"

record db =
  users :: "user list"
  projects :: "project list"
  applications :: "application list"

text \<open>
  Every \<^verbatim>\<open>res.status(...).json({ error: ... })\<close> of the routes is a constructor,
  named after its message. A thrown exception reaches the route's \<^verbatim>\<open>catch\<close> and
  is answered with status 500: \<open>ServerError\<close> carries what was thrown.
\<close>

datatype fault =
    NotEnoughFaculty      \<comment> \<open>thrown by getNextReviewers\<close>
  | NullReference         \<comment> \<open>a property of a \<^verbatim>\<open>populate\<close>d reference that is null\<close>
  | ValidationFailed      \<comment> \<open>a schema validator refused \<^verbatim>\<open>save()\<close>\<close>

datatype error =
    InvalidToken                  \<comment> \<open>401, authenticateToken\<close>
  | OnlyFacultyCanCreate          \<comment> \<open>403\<close>
  | AbstractTooLong               \<comment> \<open>400\<close>
  | HighVolumeUnderReview         \<comment> \<open>400, a reviewer has 7 or more\<close>
  | OnlyFacultyCanApprove         \<comment> \<open>403\<close>
  | OnlyFacultyCanReject          \<comment> \<open>403, reject of a project\<close>
  | ProjectNotFound               \<comment> \<open>404\<close>
  | OnlyInYourArea                \<comment> \<open>403\<close>
  | CommentRequired               \<comment> \<open>400, missing, empty or over 2500\<close>
  | OnlyStudentsCanApply          \<comment> \<open>403\<close>
  | MoreThan3Projects             \<comment> \<open>400\<close>
  | AlreadyApplied                \<comment> \<open>400\<close>
  | ProjectNotApproved            \<comment> \<open>400\<close>
  | NoSeatsAvailable              \<comment> \<open>400\<close>
  | OnlyFacultyCanSelect          \<comment> \<open>403\<close>
  | OnlyFacultyCanRejectApplications  \<comment> \<open>403\<close>
  | ApplicationNotFound           \<comment> \<open>404\<close>
  | NotAuthorized                 \<comment> \<open>403, select: the caller does not own the project\<close>
  | NotAuthorizedToReject         \<comment> \<open>403, reject: the caller does not own the project\<close>
  | StudentAlreadySelected        \<comment> \<open>400\<close>
  | ServerError fault             \<comment> \<open>500\<close>

subsection \<open>Queries and writes\<close>

definition findUser :: "db \<Rightarrow> oid \<Rightarrow> user option" where
  "findUser d i = find (\<lambda>u. uid u = i) (users d)"

definition findProject :: "db \<Rightarrow> oid \<Rightarrow> project option" where
  "findProject d i = find (\<lambda>p. pid p = i) (projects d)"

definition findApplication :: "db \<Rightarrow> oid \<Rightarrow> application option" where
  "findApplication d i = find (\<lambda>a. aid a = i) (applications d)"

text \<open>\<^verbatim>\<open>doc.save()\<close> of a document read from the collection: the stored document
  with that \<^verbatim>\<open>_id\<close> becomes the saved one.\<close>

definition saveProject :: "project \<Rightarrow> db \<Rightarrow> db" where
  "saveProject p d = d\<lparr>projects := map (\<lambda>q. if pid q = pid p then p else q) (projects d)\<rparr>"

definition saveApplication :: "application \<Rightarrow> db \<Rightarrow> db" where
  "saveApplication a d =
     d\<lparr>applications := map (\<lambda>b. if aid b = aid a then a else b) (applications d)\<rparr>"

text \<open>\<^verbatim>\<open>User.updateMany(filter, { $inc: { projectsReviewed: k } })\<close>.\<close>

definition incProjectsReviewed :: "(user \<Rightarrow> bool) \<Rightarrow> int \<Rightarrow> db \<Rightarrow> db" where
  "incProjectsReviewed sel k d =
     d\<lparr>users := map (\<lambda>u. if sel u then u\<lparr>projectsReviewed := projectsReviewed u + k\<rparr> else u)
                     (users d)\<rparr>"

text \<open>The database a request leaves behind, for a route that answers every error
  before its first write: an error leaves the database as it was.\<close>

definition dbAfter :: "db \<Rightarrow> error + db \<Rightarrow> db" where
  "dbAfter d r = (case r of Inl e \<Rightarrow> d | Inr d' \<Rightarrow> d')"

definition authenticateToken :: "db \<Rightarrow> oid \<Rightarrow> error + user" where
  "authenticateToken d userId =
     (case findUser d userId of None \<Rightarrow> Inl InvalidToken | Some u \<Rightarrow> Inr u)"

section \<open>Reviewer assignment\<close>

text \<open>
  \<^verbatim>\<open>User.find({ role: 'faculty', areaOfResearch, _id: { $ne: proposingFacultyId } })
      .sort({ loginId: 1 })\<close>: strings are compared code unit by code unit.
\<close>

definition facultyInArea :: "db \<Rightarrow> string option \<Rightarrow> oid \<Rightarrow> user list" where
  "facultyInArea d area proposingFacultyId =
     sort_key loginId
       (filter (\<lambda>u. role u = Faculty \<and> areaOfResearch u = area \<and> uid u \<noteq> proposingFacultyId)
          (users d))"

text \<open>The loop \<^verbatim>\<open>for (let i = 0; i < 5; i++) reviewers.push(facultyInArea[index])\<close>.\<close>

function pushReviewers :: "user list \<Rightarrow> nat \<Rightarrow> nat \<Rightarrow> user list \<Rightarrow> user list" where
  "pushReviewers fs startIndex i reviewers =
     (if i < 5
      then pushReviewers fs startIndex (i + 1)
             (reviewers @ [fs ! ((startIndex + i) mod length fs)])
      else reviewers)"
  by pat_completeness auto
termination
  by (relation "measure (\<lambda>(fs, startIndex, i, reviewers). 5 - i)") auto

definition getNextReviewers :: "db \<Rightarrow> string option \<Rightarrow> oid \<Rightarrow> nat \<Rightarrow> error + user list" where
  "getNextReviewers d area proposingFacultyId projectCount =
     (let fs = facultyInArea d area proposingFacultyId in
      if length fs < 5 then Inl (ServerError NotEnoughFaculty)
      else Inr (pushReviewers fs ((projectCount * 5) mod length fs) 0 []))"

section \<open>The project routes\<close>

text \<open>\<^verbatim>\<open>Project.countDocuments({ faculty: { $in: ids of the users of the area } })\<close>.\<close>

definition projectCount :: "db \<Rightarrow> string option \<Rightarrow> nat" where
  "projectCount d area =
     length (filter (\<lambda>p. faculty p \<in> set (map uid (filter (\<lambda>u. areaOfResearch u = area) (users d))))
               (projects d))"

text \<open>The validators of projectSchema that \<^verbatim>\<open>save()\<close> runs on a new project:
  required strings are not empty, \<^verbatim>\<open>abstract\<close> has at most 2500 code units,
  \<^verbatim>\<open>seats\<close> is a number and at least 1 and \<^verbatim>\<open>seatsAvailable\<close> at least 0.\<close>

definition validProject :: "project \<Rightarrow> bool" where
  "validProject p =
     (title p \<noteq> [] \<and> abstract p \<noteq> [] \<and> length (abstract p) \<le> 2500 \<and> timeline p \<noteq> []
      \<and> jsLe (Finite 1) (seats p) \<and> jsLe (Finite 0) (seatsAvailable p))"

text \<open>POST /api/projects. \<open>newId\<close> is the ObjectId mongoose gives the new document.\<close>

definition createProject ::
  "db \<Rightarrow> user \<Rightarrow> string \<Rightarrow> string \<Rightarrow> string \<Rightarrow> number \<Rightarrow> oid \<Rightarrow> error + db" where
  "createProject d u ttl abstr tline sts newId =
     (if role u \<noteq> Faculty then Inl OnlyFacultyCanCreate
      else if length abstr > 2500 then Inl AbstractTooLong
      else case getNextReviewers d (areaOfResearch u) (uid u) (projectCount d (areaOfResearch u)) of
        Inl e \<Rightarrow> Inl e
      | Inr reviewers \<Rightarrow>
          (case find (\<lambda>r. projectsReviewed r \<ge> 7) reviewers of
            Some overloadedReviewer \<Rightarrow> Inl HighVolumeUnderReview
          | None \<Rightarrow>
              (let p = \<lparr>pid = newId, title = ttl, abstract = abstr, timeline = tline, seats = sts,
                        seatsAvailable = sts, faculty = uid u, status = Pending,
                        reviewedBy = [], rejectionComments = []\<rparr>
               in if \<not> validProject p then Inl (ServerError ValidationFailed)
                  else Inr (incProjectsReviewed (\<lambda>x. uid x \<in> set (map uid reviewers)) 1
                              (d\<lparr>projects := projects d @ [p]\<rparr>)))))"

text \<open>POST /api/projects/:id/approve.\<close>

definition approveProject :: "db \<Rightarrow> user \<Rightarrow> oid \<Rightarrow> error + db" where
  "approveProject d u projectId =
     (if role u \<noteq> Faculty then Inl OnlyFacultyCanApprove
      else case findProject d projectId of
        None \<Rightarrow> Inl ProjectNotFound
      | Some p \<Rightarrow>
          (case findUser d (faculty p) of
            None \<Rightarrow> Inl (ServerError NullReference)
          | Some owner \<Rightarrow>
              if areaOfResearch owner \<noteq> areaOfResearch u then Inl OnlyInYourArea
              else (let p1 = p\<lparr>reviewedBy := reviewedBy p @ [uid u]\<rparr>;
                        p2 = (if length (reviewedBy p1) \<ge> 3 then p1\<lparr>status := Approved\<rparr> else p1)
                    in Inr (saveProject p2 d))))"

text \<open>POST /api/projects/:id/reject. \<open>comment\<close> is \<^verbatim>\<open>req.body.comment\<close>,
  \<open>None\<close> when the body has none.\<close>

definition rejectProject :: "db \<Rightarrow> user \<Rightarrow> oid \<Rightarrow> string option \<Rightarrow> error + db" where
  "rejectProject d u projectId comment =
     (if role u \<noteq> Faculty then Inl OnlyFacultyCanReject
      else case comment of
        None \<Rightarrow> Inl CommentRequired
      | Some c \<Rightarrow>
          if c = [] \<or> length c > 2500 then Inl CommentRequired
          else (case findProject d projectId of
            None \<Rightarrow> Inl ProjectNotFound
          | Some p \<Rightarrow>
              (case findUser d (faculty p) of
                None \<Rightarrow> Inl (ServerError NullReference)
              | Some owner \<Rightarrow>
                  if areaOfResearch owner \<noteq> areaOfResearch u then Inl OnlyInYourArea
                  else Inr (incProjectsReviewed
                              (\<lambda>x. areaOfResearch x = areaOfResearch u \<and> role x = Faculty) (- 1)
                              (saveProject
                                 (p\<lparr>rejectionComments := rejectionComments p @ [(uid u, c)],
                                    status := Rejected\<rparr>) d)))))"

section \<open>The application routes\<close>

text \<open>
  POST /api/applications. The route writes twice: \<^verbatim>\<open>application.save()\<close>, which
  throws before writing when \<^verbatim>\<open>cgpa\<close> is not a number, and then
  \<^verbatim>\<open>project.save()\<close> after \<^verbatim>\<open>project.seatsAvailable -= 1\<close>, which runs the
  \<^verbatim>\<open>min: 0\<close> validator of the path it changed. When that validator refuses, the
  application is already stored and the answer is 500: an error of this route comes
  with the database that it leaves behind.
\<close>

definition applyToProject ::
  "db \<Rightarrow> user \<Rightarrow> oid \<Rightarrow> number option \<Rightarrow> string option \<Rightarrow> oid \<Rightarrow> (error \<times> db) + db" where
  "applyToProject d u projectId cg sk newId =
     (if role u \<noteq> Student then Inl (OnlyStudentsCanApply, d)
      else if length (filter (\<lambda>a. student a = uid u) (applications d)) \<ge> 3
        then Inl (MoreThan3Projects, d)
      else case find (\<lambda>a. student a = uid u \<and> project a = projectId) (applications d) of
        Some existingApplication \<Rightarrow> Inl (AlreadyApplied, d)
      | None \<Rightarrow>
          (case findProject d projectId of
            None \<Rightarrow> Inl (ProjectNotFound, d)
          | Some p \<Rightarrow>
              if status p \<noteq> Approved then Inl (ProjectNotApproved, d)
              else if jsLe (seatsAvailable p) (Finite 0) then Inl (NoSeatsAvailable, d)
              else if cg = Some NaN then Inl (ServerError ValidationFailed, d)
              else (let d1 = d\<lparr>applications := applications d @
                               [\<lparr>aid = newId, student = uid u, project = projectId,
                                 appStatus = AppPending, cgpa = cg, skills = sk\<rparr>]\<rparr>;
                        p1 = p\<lparr>seatsAvailable := jsMinus (seatsAvailable p) (Finite 1)\<rparr>
                    in if \<not> jsLe (Finite 0) (seatsAvailable p1)
                       then Inl (ServerError ValidationFailed, d1)
                       else Inr (saveProject p1 d1))))"

text \<open>POST /api/applications/:id/select. \<^verbatim>\<open>populate\<close> leaves a reference null
  when its document is gone, and reading a property of it throws.\<close>

definition selectApplication :: "db \<Rightarrow> user \<Rightarrow> oid \<Rightarrow> error + db" where
  "selectApplication d u applicationId =
     (if role u \<noteq> Faculty then Inl OnlyFacultyCanSelect
      else case findApplication d applicationId of
        None \<Rightarrow> Inl ApplicationNotFound
      | Some a \<Rightarrow>
          (case findProject d (project a) of
            None \<Rightarrow> Inl (ServerError NullReference)
          | Some p \<Rightarrow>
              if faculty p \<noteq> uid u then Inl NotAuthorized
              else (case findUser d (student a) of
                None \<Rightarrow> Inl (ServerError NullReference)
              | Some s \<Rightarrow>
                  (case find (\<lambda>b. student b = uid s \<and> appStatus b = AppSelected) (applications d) of
                    Some existingSelection \<Rightarrow> Inl StudentAlreadySelected
                  | None \<Rightarrow>
                      (let d1 = saveApplication (a\<lparr>appStatus := AppSelected\<rparr>) d
                       in Inr (d1\<lparr>applications :=
                                 map (\<lambda>b. if student b = uid s \<and> aid b \<noteq> aid a
                                           then b\<lparr>appStatus := AppRejected\<rparr> else b)
                                   (applications d1)\<rparr>))))))"

text \<open>POST /api/applications/:id/reject. It writes twice as well:
  \<^verbatim>\<open>application.save()\<close>, then \<^verbatim>\<open>project.save()\<close> after
  \<^verbatim>\<open>project.seatsAvailable += 1\<close>, under the same validator.\<close>

definition rejectApplication :: "db \<Rightarrow> user \<Rightarrow> oid \<Rightarrow> (error \<times> db) + db" where
  "rejectApplication d u applicationId =
     (if role u \<noteq> Faculty then Inl (OnlyFacultyCanRejectApplications, d)
      else case findApplication d applicationId of
        None \<Rightarrow> Inl (ApplicationNotFound, d)
      | Some a \<Rightarrow>
          (case findProject d (project a) of
            None \<Rightarrow> Inl (ServerError NullReference, d)
          | Some p \<Rightarrow>
              if faculty p \<noteq> uid u then Inl (NotAuthorizedToReject, d)
              else (let d1 = saveApplication (a\<lparr>appStatus := AppRejected\<rparr>) d
                    in case findProject d1 (pid p) of
                         None \<Rightarrow> Inl (ServerError NullReference, d1)
                       | Some q \<Rightarrow>
                           (let q1 = q\<lparr>seatsAvailable := jsPlus (seatsAvailable q) (Finite 1)\<rparr>
                            in if \<not> jsLe (Finite 0) (seatsAvailable q1)
                               then Inl (ServerError ValidationFailed, d1)
                               else Inr (saveProject q1 d1)))))"

section \<open>Requests in sequence\<close>

text \<open>
  A request carries the caller's user id (what authenticateToken decodes from the token)
  and the route's parameters; the document ids that mongoose generates for new documents
  are part of the request. Requests are served one at a time. A request that fails
  leaves the database as it was, but for the two routes above, whose error says what
  it leaves.
\<close>

datatype request =
    CreateProject oid string string string number oid
  | ApproveProject oid oid
  | RejectProject oid oid "string option"
  | ApplyToProject oid oid "number option" "string option" oid
  | SelectApplication oid oid
  | RejectApplication oid oid

definition withUser :: "db \<Rightarrow> oid \<Rightarrow> (user \<Rightarrow> error + db) \<Rightarrow> error + db" where
  "withUser d userId route =
     (case authenticateToken d userId of Inl e \<Rightarrow> Inl e | Inr u \<Rightarrow> route u)"

definition answered :: "db \<Rightarrow> error + db \<Rightarrow> (error \<times> db) + db" where
  "answered d r = (case r of Inl e \<Rightarrow> Inl (e, d) | Inr d' \<Rightarrow> Inr d')"

fun handle :: "db \<Rightarrow> request \<Rightarrow> (error \<times> db) + db" where
  "handle d (CreateProject c ttl abstr tline sts newId) =
     answered d (withUser d c (\<lambda>u. createProject d u ttl abstr tline sts newId))"
| "handle d (ApproveProject c projectId) =
     answered d (withUser d c (\<lambda>u. approveProject d u projectId))"
| "handle d (RejectProject c projectId comment) =
     answered d (withUser d c (\<lambda>u. rejectProject d u projectId comment))"
| "handle d (ApplyToProject c projectId cg sk newId) =
     (case authenticateToken d c of
        Inl e \<Rightarrow> Inl (e, d)
      | Inr u \<Rightarrow> applyToProject d u projectId cg sk newId)"
| "handle d (SelectApplication c applicationId) =
     answered d (withUser d c (\<lambda>u. selectApplication d u applicationId))"
| "handle d (RejectApplication c applicationId) =
     (case authenticateToken d c of
        Inl e \<Rightarrow> Inl (e, d)
      | Inr u \<Rightarrow> rejectApplication d u applicationId)"

definition step :: "db \<Rightarrow> request \<Rightarrow> db" where
  "step d r = (case handle d r of Inl (e, d') \<Rightarrow> d' | Inr d' \<Rightarrow> d')"

definition run :: "db \<Rightarrow> request list \<Rightarrow> db" where
  "run d rs = foldl step d rs"

definition succeeds :: "db \<Rightarrow> request \<Rightarrow> bool" where
  "succeeds d r = (case handle d r of Inl x \<Rightarrow> False | Inr d' \<Rightarrow> True)"

text \<open>
  A sequence of requests, served from database \<open>d\<close>, in which every new document gets
  an id that no document of its collection has (as mongoose's ObjectIds do), every
  proposal asks for a whole number of seats, and no application is rejected by its
  owner twice: \<open>rejected\<close> lists the applications whose rejection has succeeded.
\<close>

fun admissible :: "db \<Rightarrow> oid list \<Rightarrow> request list \<Rightarrow> bool" where
  "admissible d rejected [] = True"
| "admissible d rejected (CreateProject c ttl abstr tline sts newId # rs) =
     (newId \<notin> set (map pid (projects d)) \<and> wholeNumber sts \<and>
      admissible (step d (CreateProject c ttl abstr tline sts newId)) rejected rs)"
| "admissible d rejected (ApplyToProject c projectId cg sk newId # rs) =
     (newId \<notin> set (map aid (applications d)) \<and>
      admissible (step d (ApplyToProject c projectId cg sk newId)) rejected rs)"
| "admissible d rejected (RejectApplication c applicationId # rs) =
     (if succeeds d (RejectApplication c applicationId)
      then applicationId \<notin> set rejected \<and>
           admissible (step d (RejectApplication c applicationId)) (applicationId # rejected) rs
      else admissible (step d (RejectApplication c applicationId)) rejected rs)"
| "admissible d rejected (r # rs) = admissible (step d r) rejected rs"

subsection \<open>Properties of a database\<close>

definition seatsNonNegative :: "db \<Rightarrow> bool" where
  "seatsNonNegative d = list_all (\<lambda>p. jsLe (Finite 0) (seatsAvailable p)) (projects d)"

definition withinCapacity :: "db \<Rightarrow> bool" where
  "withinCapacity d = list_all (\<lambda>p. jsLe (seatsAvailable p) (seats p)) (projects d)"

text \<open>
  The seats of a project are accounted for when \<^verbatim>\<open>seats\<close> is a whole number
  from 1 to \<open>2 ^ 53\<close> and \<^verbatim>\<open>seatsAvailable\<close> is \<^verbatim>\<open>seats\<close> less the
  applications for the project whose rejection by the owner is not in \<open>rejected\<close>;
  those hold a seat. A database is accounted for when each of its projects is, the ids
  of its applications are distinct, \<open>rejected\<close> lists applications of the database
  and every application is for a project of the database.
\<close>

definition holders :: "application list \<Rightarrow> oid list \<Rightarrow> oid \<Rightarrow> nat" where
  "holders apps rejected i =
     length (filter (\<lambda>a. project a = i \<and> aid a \<notin> set rejected) apps)"

definition accounted :: "application list \<Rightarrow> oid list \<Rightarrow> project \<Rightarrow> bool" where
  "accounted apps rejected p =
     (case seats p of
        Finite n \<Rightarrow>
          wholeNumber (seats p) \<and> 1 \<le> n \<and> of_nat (holders apps rejected (pid p)) \<le> n \<and>
          seatsAvailable p = Finite (n - of_nat (holders apps rejected (pid p)))
      | _ \<Rightarrow> False)"

definition seatsAccounted :: "db \<Rightarrow> oid list \<Rightarrow> bool" where
  "seatsAccounted d rejected =
     (distinct (map aid (applications d)) \<and>
      set rejected \<subseteq> set (map aid (applications d)) \<and>
      list_all (\<lambda>a. project a \<in> set (map pid (projects d))) (applications d) \<and>
      list_all (accounted (applications d) rejected) (projects d))"

text \<open>The student's applications, and those of them that are selected.\<close>

definition applicationsOf :: "db \<Rightarrow> oid \<Rightarrow> application list" where
  "applicationsOf d s = filter (\<lambda>a. student a = s) (applications d)"

definition selectedOf :: "db \<Rightarrow> oid \<Rightarrow> application list" where
  "selectedOf d s = filter (\<lambda>a. student a = s \<and> appStatus a = AppSelected) (applications d)"

section \<open>A department, for the examples\<close>

text \<open>
  Seven faculty of one research area (ids 11 to 17, stored out of loginId order), one of
  another area (18), and two students (21, 22). Faculty 11 proposes project 100 with one
  seat; the ring for that proposal is faculty 12 to 17 and the panel is faculty 12 to 16.
\<close>

definition mkFaculty :: "oid \<Rightarrow> string \<Rightarrow> string \<Rightarrow> int \<Rightarrow> user" where
  "mkFaculty i l a n =
     \<lparr>uid = i, loginId = l, role = Faculty, areaOfResearch = Some a, projectsReviewed = n\<rparr>"

definition mkStudent :: "oid \<Rightarrow> string \<Rightarrow> user" where
  "mkStudent i l =
     \<lparr>uid = i, loginId = l, role = Student, areaOfResearch = None, projectsReviewed = 0\<rparr>"

definition demoUsers :: "int \<Rightarrow> int \<Rightarrow> int \<Rightarrow> user list" where
  "demoUsers owner panel rest =
     [mkFaculty 11 ''100001'' ''CS'' owner, mkFaculty 13 ''100003'' ''CS'' panel,
      mkFaculty 12 ''100002'' ''CS'' panel, mkFaculty 14 ''100004'' ''CS'' panel,
      mkFaculty 15 ''100005'' ''CS'' panel, mkFaculty 16 ''100006'' ''CS'' panel,
      mkFaculty 17 ''100007'' ''CS'' rest, mkFaculty 18 ''200001'' ''Physics'' 0,
      mkStudent 21 ''24CSE00001'', mkStudent 22 ''24CSE00002'']"

definition demoProject ::
  "project_status \<Rightarrow> oid list \<Rightarrow> (oid \<times> string) list \<Rightarrow> int \<Rightarrow> project" where
  "demoProject st rb rc avail =
     \<lparr>pid = 100, title = ''Compilers'', abstract = ''Type inference'', timeline = ''6 months'',
      seats = Finite 1, seatsAvailable = Finite (of_int avail), faculty = 11, status = st,
      reviewedBy = rb,
      rejectionComments = rc\<rparr>"

definition demoApplication :: "application_status \<Rightarrow> application" where
  "demoApplication st =
     \<lparr>aid = 200, student = 21, project = 100, appStatus = st, cgpa = Some (Finite 9),
      skills = None\<rparr>"

definition demoDb :: "user list \<Rightarrow> project list \<Rightarrow> application list \<Rightarrow> db" where
  "demoDb us ps as = \<lparr>users = us, projects = ps, applications = as\<rparr>"

text \<open>The department before any proposal, and after project 100 was proposed.\<close>

definition dbEmpty :: db where
  "dbEmpty = demoDb (demoUsers 0 0 0) [] []"

definition dbProposed :: db where
  "dbProposed = demoDb (demoUsers 0 1 0) [demoProject Pending [] [] 1] []"

text \<open>One approval in; two; three (approved); then student 21 applied (application
  200), was rejected by the owner, and was rejected a second time.\<close>

definition dbOneApproval :: db where
  "dbOneApproval = demoDb (demoUsers 0 1 0) [demoProject Pending [12] [] 1] []"

definition dbTwoApprovals :: db where
  "dbTwoApprovals = demoDb (demoUsers 0 1 0) [demoProject Pending [12, 13] [] 1] []"

definition dbApproved :: db where
  "dbApproved = demoDb (demoUsers 0 1 0) [demoProject Approved [12, 13, 14] [] 1] []"

definition dbApplied :: db where
  "dbApplied =
     demoDb (demoUsers 0 1 0) [demoProject Approved [12, 13, 14] [] 0]
       [demoApplication AppPending]"

definition dbAppRejected :: db where
  "dbAppRejected =
     demoDb (demoUsers 0 1 0) [demoProject Approved [12, 13, 14] [] 1]
       [demoApplication AppRejected]"

definition dbAppRejectedTwice :: db where
  "dbAppRejectedTwice =
     demoDb (demoUsers 0 1 0) [demoProject Approved [12, 13, 14] [] 2]
       [demoApplication AppRejected]"

text \<open>Faculty 17 is of the area but not on the panel of project 100: the database
  after an approval of 17 on the fresh proposal, and after a rejection of 17.\<close>

definition dbOneReviewBy17 :: db where
  "dbOneReviewBy17 = demoDb (demoUsers 0 1 0) [demoProject Pending [17] [] 1] []"

definition dbRejectedBy17 :: db where
  "dbRejectedBy17 =
     demoDb (demoUsers (- 1) 0 (- 1))
       [demoProject Rejected [] [(17, ''needs more data'')] 1] []"

text \<open>Faculty 14 rejects project 100 after two approvals; then faculty 15 approves the
  rejected project. And faculty 15 rejects the approved project.\<close>

definition dbRejectedAfterTwo :: db where
  "dbRejectedAfterTwo =
     demoDb (demoUsers (- 1) 0 (- 1))
       [demoProject Rejected [12, 13] [(14, ''needs more data'')] 1] []"

definition dbReopened :: db where
  "dbReopened =
     demoDb (demoUsers (- 1) 0 (- 1))
       [demoProject Approved [12, 13, 15] [(14, ''needs more data'')] 1] []"

definition dbApprovedThenRejected :: db where
  "dbApprovedThenRejected =
     demoDb (demoUsers (- 1) 0 (- 1))
       [demoProject Rejected [12, 13, 14] [(15, ''needs more data'')] 1] []"

text \<open>A panel member at the ceiling: no proposal of faculty 11 is accepted.\<close>

definition dbOverloaded :: db where
  "dbOverloaded = demoDb (demoUsers 0 7 0) [] []"

text \<open>Three approved projects of faculty 11 with two seats each. Students 21 and 22
  applied to project 100, student 21 also to project 101. Then faculty 11 selects
  application 201; then student 21 applies to project 102.\<close>

definition approvedProject :: "oid \<Rightarrow> int \<Rightarrow> project" where
  "approvedProject i avail =
     \<lparr>pid = i, title = ''Compilers'', abstract = ''Type inference'', timeline = ''6 months'',
      seats = Finite 2, seatsAvailable = Finite (of_int avail), faculty = 11, status = Approved,
      reviewedBy = [12, 13, 14], rejectionComments = []\<rparr>"

definition mkApplication :: "oid \<Rightarrow> oid \<Rightarrow> oid \<Rightarrow> application_status \<Rightarrow> application" where
  "mkApplication i s p st =
     \<lparr>aid = i, student = s, project = p, appStatus = st, cgpa = None, skills = None\<rparr>"

definition dbTwoApplications :: db where
  "dbTwoApplications =
     demoDb (demoUsers 0 0 0)
       [approvedProject 100 0, approvedProject 101 1, approvedProject 102 2]
       [mkApplication 200 21 100 AppPending, mkApplication 203 22 100 AppPending,
        mkApplication 201 21 101 AppPending]"

definition dbSelected :: db where
  "dbSelected =
     demoDb (demoUsers 0 0 0)
       [approvedProject 100 0, approvedProject 101 1, approvedProject 102 2]
       [mkApplication 200 21 100 AppRejected, mkApplication 203 22 100 AppPending,
        mkApplication 201 21 101 AppSelected]"

definition dbThreeApplications :: db where
  "dbThreeApplications =
     demoDb (demoUsers 0 0 0)
       [approvedProject 100 0, approvedProject 101 1, approvedProject 102 1]
       [mkApplication 200 21 100 AppRejected, mkApplication 203 22 100 AppPending,
        mkApplication 201 21 101 AppSelected, mkApplication 202 21 102 AppPending]"

text \<open>Application 200 of the first example, rejected and then selected.\<close>

definition dbRejectedThenSelected :: db where
  "dbRejectedThenSelected =
     demoDb (demoUsers 0 1 0) [demoProject Approved [12, 13, 14] [] 1]
       [demoApplication AppSelected]"

definition demoRequests :: "request list" where
  "demoRequests =
     [CreateProject 11 ''Compilers'' ''Type inference'' ''6 months'' (Finite 1) 100,
      ApproveProject 12 100, ApproveProject 13 100, ApproveProject 14 100,
      ApplyToProject 21 100 (Some (Finite 9)) None 200,
      RejectApplication 11 200, RejectApplication 11 200]"

text \<open>A proposal of one and a half seats. Students 21 and 22 apply; the second
  application is stored although no seat is taken for it. Then the owner rejects each
  of the two applications once.\<close>

definition halfProject :: "rat \<Rightarrow> project" where
  "halfProject avail =
     \<lparr>pid = 100, title = ''Compilers'', abstract = ''Type inference'', timeline = ''6 months'',
      seats = Finite (3 / 2), seatsAvailable = Finite avail, faculty = 11, status = Approved,
      reviewedBy = [12, 13, 14], rejectionComments = []\<rparr>"

definition dbHalfSeat :: db where
  "dbHalfSeat =
     demoDb (demoUsers 0 1 0) [halfProject (1 / 2)] [mkApplication 200 21 100 AppPending]"

definition dbHalfSeatApplied :: db where
  "dbHalfSeatApplied =
     demoDb (demoUsers 0 1 0) [halfProject (1 / 2)]
       [mkApplication 200 21 100 AppPending, mkApplication 201 22 100 AppPending]"

definition dbHalfSeatRejected :: db where
  "dbHalfSeatRejected =
     demoDb (demoUsers 0 1 0) [halfProject (5 / 2)]
       [mkApplication 200 21 100 AppRejected, mkApplication 201 22 100 AppRejected]"

definition halfSeatRequests :: "request list" where
  "halfSeatRequests =
     [CreateProject 11 ''Compilers'' ''Type inference'' ''6 months'' (Finite (3 / 2)) 100,
      ApproveProject 12 100, ApproveProject 13 100, ApproveProject 14 100,
      ApplyToProject 21 100 None None 200, ApplyToProject 22 100 None None 201,
      RejectApplication 11 200, RejectApplication 11 201]"

text \<open>A project with more seats than doubles can count one by one.\<close>

definition dbManySeats :: db where
  "dbManySeats =
     demoDb (demoUsers 0 0 0)
       [(approvedProject 100 0)\<lparr>seats := Finite (2 ^ 53 + 2),
                                seatsAvailable := Finite (2 ^ 53 + 2)\<rparr>] []"

definition dbManySeatsApplied :: db where
  "dbManySeatsApplied =
     demoDb (demoUsers 0 0 0)
       [(approvedProject 100 0)\<lparr>seats := Finite (2 ^ 53 + 2),
                                seatsAvailable := Finite (2 ^ 53)\<rparr>]
       [mkApplication 200 21 100 AppPending]"

section \<open>Evaluating the examples\<close>

lemmas demo_defs =
  mkFaculty_def mkStudent_def demoUsers_def demoProject_def demoApplication_def demoDb_def
  dbEmpty_def dbProposed_def dbOneApproval_def dbTwoApprovals_def dbApproved_def dbApplied_def
  dbAppRejected_def dbAppRejectedTwice_def
  dbOneReviewBy17_def dbRejectedBy17_def dbRejectedAfterTwo_def dbReopened_def
  dbApprovedThenRejected_def dbOverloaded_def approvedProject_def mkApplication_def
  dbTwoApplications_def dbSelected_def dbThreeApplications_def dbRejectedThenSelected_def

lemmas route_defs =
  createProject_def approveProject_def rejectProject_def
  selectApplication_def withUser_def authenticateToken_def
  findUser_def findProject_def findApplication_def saveProject_def saveApplication_def
  incProjectsReviewed_def validProject_def projectCount_def getNextReviewers_def
  facultyInArea_def

section \<open>Arithmetic of numbers\<close>

declare normalize.simps [simp del]

lemma jsLe_one_zero: "jsLe (Finite 1) x \<Longrightarrow> jsLe (Finite 0) x"
  by (cases x) simp_all

lemma roundHalfEven_of_int [simp]: "roundHalfEven (of_int k) = k"
  by (simp add: roundHalfEven_def)

lemma roundHalfEven_numeral [simp]:
  "roundHalfEven (numeral n) = numeral n" "roundHalfEven (- numeral n) = - numeral n"
  using roundHalfEven_of_int [of "numeral n"] roundHalfEven_of_int [of "- numeral n"]
  by simp_all

lemma roundHalfEven_nonneg: "0 \<le> r \<Longrightarrow> 0 \<le> roundHalfEven r"
  by (auto simp: roundHalfEven_def Let_def)

lemma floor_rat_numeral_div [simp]:
  "\<lfloor>numeral a / numeral b :: rat\<rfloor> = numeral a div numeral b"
  using floor_divide_of_int_eq [of "numeral a" "numeral b", where ?'a = rat] by simp

text \<open>Rescaling keeps the value and the sign, and keeps a significand below
  \<open>2 ^ 53\<close> whole.\<close>

lemma normalize_value:
  "normalize m e = (m', e') \<Longrightarrow> m' * 2 powi e' = m * 2 powi e"
proof (induction m e rule: normalize.induct)
  case (1 m e)
  show ?case
  proof (cases "2 ^ 53 \<le> \<bar>m\<bar> \<and> e < 972")
    case True
    with "1.prems" have "normalize (m / 2) (e + 1) = (m', e')"
      by (subst (asm) normalize.simps) simp
    with True have "m' * 2 powi e' = (m / 2) * 2 powi (e + 1)"
      by (rule "1.IH"(1))
    then show ?thesis
      by (simp add: power_int_add)
  next
    case False
    show ?thesis
    proof (cases "\<bar>m\<bar> < 2 ^ 52 \<and> - 1074 < e")
      case True
      with False "1.prems" have "normalize (m * 2) (e - 1) = (m', e')"
        by (subst (asm) normalize.simps) simp
      with False True have "m' * 2 powi e' = (m * 2) * 2 powi (e - 1)"
        by (rule "1.IH"(2))
      then show ?thesis
        by (simp add: power_int_diff)
    next
      case stop: False
      with False "1.prems" show ?thesis
        by (subst (asm) normalize.simps) auto
    qed
  qed
qed

lemma normalize_nonneg:
  "normalize m e = (m', e') \<Longrightarrow> 0 \<le> m \<Longrightarrow> 0 \<le> m'"
proof (induction m e rule: normalize.induct)
  case (1 m e)
  show ?case
  proof (cases "2 ^ 53 \<le> \<bar>m\<bar> \<and> e < 972")
    case True
    with "1.prems" have "normalize (m / 2) (e + 1) = (m', e')"
      by (subst (asm) normalize.simps) simp
    with True show ?thesis
      using "1.prems"(2) by (intro "1.IH"(1)) simp_all
  next
    case False
    show ?thesis
    proof (cases "\<bar>m\<bar> < 2 ^ 52 \<and> - 1074 < e")
      case True
      with False "1.prems" have "normalize (m * 2) (e - 1) = (m', e')"
        by (subst (asm) normalize.simps) simp
      with False True show ?thesis
        using "1.prems"(2) by (intro "1.IH"(2)) simp_all
    next
      case stop: False
      with False "1.prems" show ?thesis
        by (subst (asm) normalize.simps) auto
    qed
  qed
qed

lemma normalize_whole:
  "normalize m e = (m', e') \<Longrightarrow> \<bar>m\<bar> < 2 ^ 53 \<Longrightarrow> m \<in> \<int> \<Longrightarrow> m' \<in> \<int>"
proof (induction m e rule: normalize.induct)
  case (1 m e)
  from "1.prems"(2) have up: "\<not> (2 ^ 53 \<le> \<bar>m\<bar> \<and> e < 972)" by simp
  show ?case
  proof (cases "\<bar>m\<bar> < 2 ^ 52 \<and> - 1074 < e")
    case True
    with up "1.prems" have "normalize (m * 2) (e - 1) = (m', e')"
      by (subst (asm) normalize.simps) simp
    moreover from True have "\<bar>m * 2\<bar> < 2 ^ 53" by (simp add: abs_mult)
    moreover from "1.prems"(3) have "m * 2 \<in> \<int>" by simp
    ultimately show ?thesis
      using up True by (intro "1.IH"(2)) simp_all
  next
    case False
    with up "1.prems" show ?thesis
      by (subst (asm) normalize.simps) auto
  qed
qed

lemma toNumber_nonneg:
  assumes "0 \<le> q"
  shows "jsLe (Finite 0) (toNumber q)"
proof (cases "q = 0")
  case True
  then show ?thesis by (simp add: toNumber_def)
next
  case False
  obtain m e where n: "normalize q 0 = (m, e)" by (cases "normalize q 0")
  from normalize_nonneg [OF n assms] have "0 \<le> m" .
  then have "0 \<le> of_int (roundHalfEven m) * (2::rat) powi e"
    by (simp add: roundHalfEven_nonneg)
  with False assms n show ?thesis
    by (simp add: toNumber_def Let_def)
qed

lemma toNumber_whole_small:
  assumes "\<bar>k\<bar> < 2 ^ 53"
  shows "toNumber (of_int k) = Finite (of_int k)"
proof (cases "k = 0")
  case True
  then show ?thesis by (simp add: toNumber_def)
next
  case False
  obtain m e where n: "normalize (of_int k) 0 = (m, e)" by (cases "normalize (of_int k :: rat) 0")
  have small: "\<bar>of_int k :: rat\<bar> < 2 ^ 53"
  proof -
    from assms have "of_int \<bar>k\<bar> < (of_int (2 ^ 53) :: rat)"
      by (simp only: of_int_less_iff)
    then show ?thesis by simp
  qed
  from normalize_whole [OF n small] obtain j where j: "m = of_int j"
    by (auto elim: Ints_cases)
  from normalize_value [OF n] have v: "m * 2 powi e = of_int k" by simp
  have "\<bar>of_int k :: rat\<bar> < 2 ^ 1024"
    using small by (rule less_trans) simp
  with False n v show ?thesis
    by (simp add: toNumber_def Let_def j)
qed

lemma toNumber_2_53:
  "toNumber (2 ^ 53) = Finite (2 ^ 53)" "toNumber (- (2 ^ 53)) = Finite (- (2 ^ 53))"
  by (simp_all add: toNumber_def normalize.simps Let_def)

lemma toNumber_whole:
  assumes "\<bar>k\<bar> \<le> 2 ^ 53"
  shows "toNumber (of_int k) = Finite (of_int k)"
proof -
  from assms have "\<bar>k\<bar> < 2 ^ 53 \<or> k = 2 ^ 53 \<or> k = - (2 ^ 53)"
    by linarith
  then show ?thesis
    using toNumber_whole_small [of k] toNumber_2_53 by auto
qed

lemma jsPlus_whole:
  "\<bar>k + 1\<bar> \<le> 2 ^ 53 \<Longrightarrow> jsPlus (Finite (of_int k)) (Finite 1) = Finite (of_int (k + 1))"
  using toNumber_whole [of "k + 1"] by simp

lemma jsMinus_whole:
  "\<bar>k - 1\<bar> \<le> 2 ^ 53 \<Longrightarrow> jsMinus (Finite (of_int k)) (Finite 1) = Finite (of_int (k - 1))"
  using toNumber_whole [of "k - 1"] by (simp add: jsMinus_def)

lemma jsPlus_one_nonneg: "jsLe (Finite 0) x \<Longrightarrow> jsLe (Finite 0) (jsPlus x (Finite 1))"
  by (cases x) (simp_all add: toNumber_nonneg)

lemma jsMinus_one_nonneg: "jsLe (Finite 1) x \<Longrightarrow> jsLe (Finite 0) (jsMinus x (Finite 1))"
  by (cases x) (simp_all add: jsMinus_def toNumber_nonneg)

lemma wholeNumber_cases:
  assumes "wholeNumber x"
  obtains k where "x = Finite (of_int k)" and "\<bar>k\<bar> \<le> 2 ^ 53"
proof -
  from assms obtain q where q: "x = Finite q" "q = of_int \<lfloor>q\<rfloor>" "\<bar>q\<bar> \<le> 2 ^ 53"
    by (auto simp: wholeNumber_def split: number.splits)
  from q(2,3) have "\<bar>of_int \<lfloor>q\<rfloor> :: rat\<bar> \<le> of_int (2 ^ 53)" by simp
  then have "\<bar>\<lfloor>q\<rfloor>\<bar> \<le> 2 ^ 53"
    by (simp only: of_int_abs [symmetric] of_int_le_iff)
  with q(1,2) show ?thesis by (metis that)
qed

text \<open>The doubles that the examples compute.\<close>

lemma toNumber_evals:
  "toNumber 0 = Finite 0" "toNumber 1 = Finite 1" "toNumber 2 = Finite 2"
  "toNumber (1 / 2) = Finite (1 / 2)" "toNumber (- (1 / 2)) = Finite (- (1 / 2))"
  "toNumber (3 / 2) = Finite (3 / 2)" "toNumber (5 / 2) = Finite (5 / 2)"
  "toNumber 9007199254740993 = Finite 9007199254740992"
  by (simp_all add: toNumber_def normalize.simps roundHalfEven_def Let_def)

section \<open>Reviewer assignment: the panel is a window of the sorted ring\<close>

declare pushReviewers.simps [simp del]


lemma pushReviewers_eq:
  "pushReviewers fs s i acc = acc @ map (\<lambda>j. fs ! ((s + j) mod length fs)) [i..<5]"
proof (induction fs s i acc rule: pushReviewers.induct)
  case (1 fs s i acc)
  show ?case
  proof (cases "i < 5")
    case True
    then have "[i..<5] = i # [i + 1..<5]"
      by (simp add: upt_conv_Cons)
    with True "1.IH" show ?thesis
      by (subst pushReviewers.simps) simp
  next
    case False
    then show ?thesis
      by (subst pushReviewers.simps) simp
  qed
qed

lemma window_rotate:
  assumes "5 \<le> length fs"
  shows "map (\<lambda>j. fs ! ((s + j) mod length fs)) [0..<5] = take 5 (rotate s fs)"
proof (rule nth_equalityI)
  show "length (map (\<lambda>j. fs ! ((s + j) mod length fs)) [0..<5]) = length (take 5 (rotate s fs))"
    using assms by simp
next
  fix i assume "i < length (map (\<lambda>j. fs ! ((s + j) mod length fs)) [0..<5])"
  then have i: "i < 5" by simp
  with assms have "i < length fs" by simp
  then have "rotate s fs ! i = fs ! ((s + i) mod length fs)"
    by (simp add: nth_rotate add.commute)
  with i show "map (\<lambda>j. fs ! ((s + j) mod length fs)) [0..<5] ! i = take 5 (rotate s fs) ! i"
    by (simp del: upt_Suc)
qed

lemma set_facultyInArea:
  "set (facultyInArea d area proposer) =
     {u \<in> set (users d). role u = Faculty \<and> areaOfResearch u = area \<and> uid u \<noteq> proposer}"
  by (auto simp: facultyInArea_def)

lemma sorted_facultyInArea: "sorted (map loginId (facultyInArea d area proposer))"
  by (simp add: facultyInArea_def)

lemma length_facultyInArea:
  "length (facultyInArea d area proposer) =
     length (filter (\<lambda>u. role u = Faculty \<and> areaOfResearch u = area \<and> uid u \<noteq> proposer) (users d))"
  by (simp add: facultyInArea_def)

lemma distinct_uid_facultyInArea:
  assumes "distinct (map uid (users d))"
  shows "distinct (map uid (facultyInArea d area proposer))"
proof -
  from assms have "distinct (users d)" and inj: "inj_on uid (set (users d))"
    by (simp_all add: distinct_map)
  then have "distinct (facultyInArea d area proposer)"
    by (simp add: facultyInArea_def)
  moreover have "inj_on uid (set (facultyInArea d area proposer))"
    by (rule inj_on_subset [OF inj]) (auto simp: set_facultyInArea)
  ultimately show ?thesis by (simp add: distinct_map)
qed

lemma getNextReviewers_Inr:
  assumes "5 \<le> length (facultyInArea d area proposer)"
  shows "getNextReviewers d area proposer n =
           Inr (take 5 (rotate ((n * 5) mod length (facultyInArea d area proposer))
                          (facultyInArea d area proposer)))"
  using assms by (simp add: getNextReviewers_def Let_def pushReviewers_eq window_rotate del: upt_Suc)

lemma getNextReviewers_cases:
  assumes "getNextReviewers d area proposer n = Inr rs"
  shows "5 \<le> length (facultyInArea d area proposer) \<and>
         rs = take 5 (rotate ((n * 5) mod length (facultyInArea d area proposer))
                          (facultyInArea d area proposer))"
proof (cases "5 \<le> length (facultyInArea d area proposer)")
  case True
  with assms getNextReviewers_Inr [OF True, of n] show ?thesis by simp
next
  case False
  with assms show ?thesis by (simp add: getNextReviewers_def Let_def)
qed

lemma set_panel_subset:
  assumes "getNextReviewers d area proposer n = Inr rs"
  shows "set rs \<subseteq> set (facultyInArea d area proposer)"
proof -
  from getNextReviewers_cases [OF assms]
  have "rs = take 5 (rotate ((n * 5) mod length (facultyInArea d area proposer))
                          (facultyInArea d area proposer))" by simp
  then have "set rs \<subseteq> set (rotate ((n * 5) mod length (facultyInArea d area proposer))
                          (facultyInArea d area proposer))"
    by (metis set_take_subset)
  then show ?thesis by simp
qed


text \<open>
  C8. Let the ring be the faculty of the area other than the proposer, sorted by loginId
  (user ids being unique, as \<^verbatim>\<open>_id\<close> is). With at least 5 of them,
  getNextReviewers returns exactly 5 users with distinct ids, none of them the proposer,
  all faculty of the area, and they are the 5 consecutive entries of the ring, wrapping
  around, that start at offset \<open>(projectCount * 5) mod ringSize\<close>. With fewer than 5 it
  throws (InsufficientReviewers).
\<close>

theorem getNextReviewers_panel:
  assumes "distinct (map uid (users d))"
  shows "(5 \<le> length (facultyInArea d area proposer) \<longrightarrow>
           (\<exists>rs. getNextReviewers d area proposer n = Inr rs \<and> length rs = 5 \<and>
               distinct (map uid rs) \<and> proposer \<notin> set (map uid rs) \<and>
               (\<forall>r \<in> set rs. r \<in> set (users d) \<and> role r = Faculty \<and> areaOfResearch r = area) \<and>
               rs = take 5 (rotate ((n * 5) mod length (facultyInArea d area proposer))
                              (facultyInArea d area proposer)))) \<and>
         (length (facultyInArea d area proposer) < 5 \<longrightarrow>
            getNextReviewers d area proposer n = Inl (ServerError NotEnoughFaculty)) \<and>
         sorted (map loginId (facultyInArea d area proposer)) \<and>
         set (facultyInArea d area proposer) =
           {u \<in> set (users d). role u = Faculty \<and> areaOfResearch u = area \<and> uid u \<noteq> proposer} \<and>
         length (facultyInArea d area proposer) =
           length (filter (\<lambda>u. role u = Faculty \<and> areaOfResearch u = area \<and> uid u \<noteq> proposer)
                     (users d))"
proof -
  let ?ring = "facultyInArea d area proposer"
  let ?rs = "take 5 (rotate ((n * 5) mod length ?ring) ?ring)"
  have big: "getNextReviewers d area proposer n = Inr ?rs \<and> length ?rs = 5 \<and>
      distinct (map uid ?rs) \<and> proposer \<notin> set (map uid ?rs) \<and>
      (\<forall>r \<in> set ?rs. r \<in> set (users d) \<and> role r = Faculty \<and> areaOfResearch r = area)"
    if five: "5 \<le> length ?ring"
  proof -
    have eq: "getNextReviewers d area proposer n = Inr ?rs"
      by (rule getNextReviewers_Inr [OF five])
    have len: "length ?rs = 5" using five by simp
    have "distinct (map uid (rotate ((n * 5) mod length ?ring) ?ring))"
      using distinct_uid_facultyInArea [OF assms, of area proposer]
      by (simp add: rotate_map [symmetric])
    then have dist: "distinct (map uid ?rs)"
      by (simp add: take_map [symmetric])
    have sub: "set ?rs \<subseteq> set ?ring"
      by (rule set_panel_subset [OF eq])
    have mem: "\<forall>r \<in> set ?rs. r \<in> set (users d) \<and> role r = Faculty \<and> areaOfResearch r = area"
      using sub by (auto simp: set_facultyInArea)
    have "proposer \<notin> set (map uid ?rs)"
      using sub by (auto simp: set_facultyInArea)
    with eq len dist mem show ?thesis by blast
  qed
  have small: "getNextReviewers d area proposer n = Inl (ServerError NotEnoughFaculty)"
    if "length ?ring < 5"
    using that by (simp add: getNextReviewers_def Let_def)
  from big small show ?thesis
    using sorted_facultyInArea [of d area proposer] set_facultyInArea [of d area proposer]
      length_facultyInArea [of d area proposer]
    by blast
qed


lemma take5_rotate5: "take 5 (rotate 5 [a, b, c, d, e, f]) = [f, a, b, c, d]"
  by (simp add: rotate_def numeral_eq_Suc rotate1_def)

theorem getNextReviewers_panel_witness:
  "distinct (map uid (users dbEmpty)) \<and>
   5 \<le> length (facultyInArea dbEmpty (Some ''CS'') 11) \<and>
   getNextReviewers dbEmpty (Some ''CS'') 11 1 =
     Inr [mkFaculty 17 ''100007'' ''CS'' 0, mkFaculty 12 ''100002'' ''CS'' 0,
          mkFaculty 13 ''100003'' ''CS'' 0, mkFaculty 14 ''100004'' ''CS'' 0,
          mkFaculty 15 ''100005'' ''CS'' 0] \<and>
   length (facultyInArea dbEmpty (Some ''Physics'') 18) < 5 \<and>
   getNextReviewers dbEmpty (Some ''Physics'') 18 0 = Inl (ServerError NotEnoughFaculty)"
proof -
  have d: "distinct (map uid (users dbEmpty))"
    by (simp add: demo_defs)
  have ring: "facultyInArea dbEmpty (Some ''CS'') 11 =
      [mkFaculty 12 ''100002'' ''CS'' 0, mkFaculty 13 ''100003'' ''CS'' 0,
       mkFaculty 14 ''100004'' ''CS'' 0, mkFaculty 15 ''100005'' ''CS'' 0,
       mkFaculty 16 ''100006'' ''CS'' 0, mkFaculty 17 ''100007'' ''CS'' 0]"
    by (simp add: demo_defs facultyInArea_def)
  have five: "5 \<le> length (facultyInArea dbEmpty (Some ''CS'') 11)"
    by (simp add: ring)
  have few: "length (facultyInArea dbEmpty (Some ''Physics'') 18) < 5"
    by (simp add: demo_defs facultyInArea_def)
  from getNextReviewers_panel [OF d, of "Some ''CS''" 11 1] five
  have "getNextReviewers dbEmpty (Some ''CS'') 11 1 =
      Inr (take 5 (rotate ((1 * 5) mod length (facultyInArea dbEmpty (Some ''CS'') 11))
                     (facultyInArea dbEmpty (Some ''CS'') 11)))"
    by blast
  then have panel: "getNextReviewers dbEmpty (Some ''CS'') 11 1 =
     Inr [mkFaculty 17 ''100007'' ''CS'' 0, mkFaculty 12 ''100002'' ''CS'' 0,
          mkFaculty 13 ''100003'' ''CS'' 0, mkFaculty 14 ''100004'' ''CS'' 0,
          mkFaculty 15 ''100005'' ''CS'' 0]"
    by (simp only: ring list.size One_nat_def mult_1 take5_rotate5) (simp add: take5_rotate5)
  from getNextReviewers_panel [OF d, of "Some ''Physics''" 18 0] few
  have "getNextReviewers dbEmpty (Some ''Physics'') 18 0 = Inl (ServerError NotEnoughFaculty)"
    by blast
  with d five panel few show ?thesis by blast
qed

section \<open>Looking up a document after a write\<close>

lemma find_SomeD: "find P xs = Some x \<Longrightarrow> x \<in> set xs \<and> P x"
  by (induction xs) (auto split: if_splits)

lemma find_key_replaced:
  assumes "find (\<lambda>q. key q = i) xs = Some p" and "key p' = i"
  shows "find (\<lambda>q. key q = i) (map (\<lambda>q. if key q = i then p' else q) xs) = Some p'"
  using assms by (induction xs) (auto split: if_splits)

lemma findProject_pid: "findProject d i = Some p \<Longrightarrow> pid p = i"
  by (auto simp: findProject_def dest: find_SomeD)

lemma findProject_mem: "findProject d i = Some p \<Longrightarrow> p \<in> set (projects d)"
  by (auto simp: findProject_def dest: find_SomeD)

lemma findUser_uid: "findUser d i = Some u \<Longrightarrow> uid u = i"
  by (auto simp: findUser_def dest: find_SomeD)

lemma findApplication_aid: "findApplication d i = Some a \<Longrightarrow> aid a = i"
  by (auto simp: findApplication_def dest: find_SomeD)

lemma findProject_saveProject:
  assumes "findProject d i = Some p" and "pid p' = i"
  shows "findProject (saveProject p' d) i = Some p'"
  using find_key_replaced [of pid i "projects d" p p'] assms
  by (simp add: findProject_def saveProject_def)

lemma findProject_incProjectsReviewed [simp]:
  "findProject (incProjectsReviewed sel k d) i = findProject d i"
  by (simp add: findProject_def incProjectsReviewed_def)

lemma users_saveProject [simp]: "users (saveProject p d) = users d"
  by (simp add: saveProject_def)

lemma applications_saveProject [simp]: "applications (saveProject p d) = applications d"
  by (simp add: saveProject_def)

lemma projects_incProjectsReviewed [simp]:
  "projects (incProjectsReviewed sel k d) = projects d"
  by (simp add: incProjectsReviewed_def)

lemma applications_incProjectsReviewed [simp]:
  "applications (incProjectsReviewed sel k d) = applications d"
  by (simp add: incProjectsReviewed_def)

section \<open>What a review needs, and what it does\<close>

text \<open>The two review routes succeed under the same guards.\<close>

lemma approveProject_Inr:
  assumes "approveProject d u i = Inr d'"
  obtains p owner where "role u = Faculty" and "findProject d i = Some p"
    and "findUser d (faculty p) = Some owner"
    and "areaOfResearch owner = areaOfResearch u"
    and "d' = saveProject
           (if 3 \<le> length (reviewedBy p @ [uid u])
            then p\<lparr>reviewedBy := reviewedBy p @ [uid u], status := Approved\<rparr>
            else p\<lparr>reviewedBy := reviewedBy p @ [uid u]\<rparr>) d"
  using assms
  by (auto simp: approveProject_def Let_def split: if_splits option.splits)

lemma rejectProject_Inr:
  assumes "rejectProject d u i comment = Inr d'"
  obtains p owner c where "role u = Faculty" and "comment = Some c" and "c \<noteq> []"
    and "length c \<le> 2500" and "findProject d i = Some p"
    and "findUser d (faculty p) = Some owner"
    and "areaOfResearch owner = areaOfResearch u"
    and "d' = incProjectsReviewed
                (\<lambda>x. areaOfResearch x = areaOfResearch u \<and> role x = Faculty) (- 1)
                (saveProject (p\<lparr>rejectionComments := rejectionComments p @ [(uid u, c)],
                               status := Rejected\<rparr>) d)"
  using assms
  by (auto simp: rejectProject_def split: if_splits option.splits)

text \<open>
  C1, as the routes have it. The panel that getNextReviewers computes is not stored with
  the project and the review routes do not consult it. A review decision (approve or
  reject) is recorded only if the caller is faculty and the caller's research area is the
  research area of the project's owner; a faculty caller of another area is refused
  (OnlyInYourArea, or CommentRequired when a rejection lacks its comment) and the
  database, with every project's status and review list and every load counter, stays as
  it was.
\<close>

theorem review_guard_is_area:
  "(approveProject d u i = Inr d1 \<longrightarrow>
      role u = Faculty \<and>
      (\<exists>p owner. findProject d i = Some p \<and> findUser d (faculty p) = Some owner \<and>
         areaOfResearch owner = areaOfResearch u)) \<and>
   (rejectProject d u i comment = Inr d2 \<longrightarrow>
      role u = Faculty \<and>
      (\<exists>p owner. findProject d i = Some p \<and> findUser d (faculty p) = Some owner \<and>
         areaOfResearch owner = areaOfResearch u)) \<and>
   (role u = Faculty \<and> findProject d i = Some p \<and> findUser d (faculty p) = Some owner \<and>
    areaOfResearch owner \<noteq> areaOfResearch u \<longrightarrow>
      approveProject d u i = Inl OnlyInYourArea \<and>
      dbAfter d (approveProject d u i) = d \<and>
      (rejectProject d u i comment = Inl OnlyInYourArea \<or>
       rejectProject d u i comment = Inl CommentRequired) \<and>
      dbAfter d (rejectProject d u i comment) = d)"
proof (intro conjI impI)
  assume "approveProject d u i = Inr d1"
  then show "role u = Faculty"
    by (rule approveProject_Inr)
next
  assume "approveProject d u i = Inr d1"
  then show "\<exists>p owner. findProject d i = Some p \<and> findUser d (faculty p) = Some owner \<and>
         areaOfResearch owner = areaOfResearch u"
    by (rule approveProject_Inr) blast
next
  assume "rejectProject d u i comment = Inr d2"
  then show "role u = Faculty"
    by (rule rejectProject_Inr)
next
  assume "rejectProject d u i comment = Inr d2"
  then show "\<exists>p owner. findProject d i = Some p \<and> findUser d (faculty p) = Some owner \<and>
         areaOfResearch owner = areaOfResearch u"
    by (rule rejectProject_Inr) blast
next
  assume a: "role u = Faculty \<and> findProject d i = Some p \<and>
    findUser d (faculty p) = Some owner \<and> areaOfResearch owner \<noteq> areaOfResearch u"
  then show ap: "approveProject d u i = Inl OnlyInYourArea"
    by (simp add: approveProject_def)
  then show "dbAfter d (approveProject d u i) = d"
    by (simp add: dbAfter_def)
  from a show rj: "rejectProject d u i comment = Inl OnlyInYourArea \<or>
       rejectProject d u i comment = Inl CommentRequired"
    by (simp add: rejectProject_def split: option.splits)
  then show "dbAfter d (rejectProject d u i comment) = d"
    by (auto simp: dbAfter_def)
qed

theorem review_guard_is_area_witness:
  "approveProject dbProposed (mkFaculty 17 ''100007'' ''CS'' 0) 100 = Inr dbOneReviewBy17 \<and>
   rejectProject dbProposed (mkFaculty 17 ''100007'' ''CS'' 0) 100 (Some ''needs more data'')
     = Inr dbRejectedBy17 \<and>
   role (mkFaculty 17 ''100007'' ''CS'' 0) = Faculty \<and>
   findProject dbProposed 100 = Some (demoProject Pending [] [] 1) \<and>
   findUser dbProposed (faculty (demoProject Pending [] [] 1))
     = Some (mkFaculty 11 ''100001'' ''CS'' 0) \<and>
   areaOfResearch (mkFaculty 11 ''100001'' ''CS'' 0)
     = areaOfResearch (mkFaculty 17 ''100007'' ''CS'' 0) \<and>
   role (mkFaculty 18 ''200001'' ''Physics'' 0) = Faculty \<and>
   areaOfResearch (mkFaculty 11 ''100001'' ''CS'' 0)
     \<noteq> areaOfResearch (mkFaculty 18 ''200001'' ''Physics'' 0) \<and>
   approveProject dbProposed (mkFaculty 18 ''200001'' ''Physics'' 0) 100 = Inl OnlyInYourArea \<and>
   rejectProject dbProposed (mkFaculty 18 ''200001'' ''Physics'' 0) 100 (Some ''needs more data'')
     = Inl OnlyInYourArea"
proof -
  have ok: "approveProject dbProposed (mkFaculty 17 ''100007'' ''CS'' 0) 100 = Inr dbOneReviewBy17"
    by (simp add: demo_defs route_defs)
  have ok2: "rejectProject dbProposed (mkFaculty 17 ''100007'' ''CS'' 0) 100 (Some ''needs more data'')
     = Inr dbRejectedBy17"
    by (simp add: demo_defs route_defs)
  have pre: "role (mkFaculty 18 ''200001'' ''Physics'' 0) = Faculty \<and>
     findProject dbProposed 100 = Some (demoProject Pending [] [] 1) \<and>
     findUser dbProposed (faculty (demoProject Pending [] [] 1))
       = Some (mkFaculty 11 ''100001'' ''CS'' 0) \<and>
     areaOfResearch (mkFaculty 11 ''100001'' ''CS'' 0)
       \<noteq> areaOfResearch (mkFaculty 18 ''200001'' ''Physics'' 0)"
    by (simp add: demo_defs route_defs)
  have cm: "rejectProject dbProposed (mkFaculty 18 ''200001'' ''Physics'' 0) 100
      (Some ''needs more data'') \<noteq> Inl CommentRequired"
    by (simp add: demo_defs route_defs)
  from review_guard_is_area [of dbProposed "mkFaculty 17 ''100007'' ''CS'' 0" 100 dbOneReviewBy17
      "Some ''needs more data''" dbRejectedBy17] ok ok2
  have a: "role (mkFaculty 17 ''100007'' ''CS'' 0) = Faculty" by blast
  have b: "areaOfResearch (mkFaculty 11 ''100001'' ''CS'' 0)
     = areaOfResearch (mkFaculty 17 ''100007'' ''CS'' 0)"
    by (simp add: demo_defs)
  from review_guard_is_area [of dbProposed "mkFaculty 18 ''200001'' ''Physics'' 0" 100 _
      "Some ''needs more data''" _ "demoProject Pending [] [] 1" "mkFaculty 11 ''100001'' ''CS'' 0"]
    pre cm
  have c: "approveProject dbProposed (mkFaculty 18 ''200001'' ''Physics'' 0) 100 = Inl OnlyInYourArea \<and>
   rejectProject dbProposed (mkFaculty 18 ''200001'' ''Physics'' 0) 100 (Some ''needs more data'')
     = Inl OnlyInYourArea"
    by blast
  from ok ok2 a b c pre show ?thesis by blast
qed

text \<open>
  C1 as stated fails: the panel of project 100 is faculty 12 to 16, and faculty 17, of
  the same area and not on the panel, approves it, or rejects it, and the decision is
  recorded.
\<close>

theorem nonpanel_review_counterexample:
  "getNextReviewers dbEmpty (Some ''CS'') 11 0 =
     Inr [mkFaculty 12 ''100002'' ''CS'' 0, mkFaculty 13 ''100003'' ''CS'' 0,
          mkFaculty 14 ''100004'' ''CS'' 0, mkFaculty 15 ''100005'' ''CS'' 0,
          mkFaculty 16 ''100006'' ''CS'' 0] \<and>
   step dbEmpty (CreateProject 11 ''Compilers'' ''Type inference'' ''6 months'' (Finite 1) 100)
     = dbProposed \<and>
   approveProject dbProposed (mkFaculty 17 ''100007'' ''CS'' 0) 100 = Inr dbOneReviewBy17 \<and>
   map reviewedBy (projects dbOneReviewBy17) = [[17]] \<and>
   rejectProject dbProposed (mkFaculty 17 ''100007'' ''CS'' 0) 100 (Some ''needs more data'')
     = Inr dbRejectedBy17 \<and>
   map status (projects dbRejectedBy17) = [Rejected]"
  by (simp add: demo_defs route_defs step_def answered_def pushReviewers.simps)

lemma approve_ok:
  assumes "role u = Faculty" and "findProject d i = Some p"
    and "findUser d (faculty p) = Some owner" and "areaOfResearch owner = areaOfResearch u"
  shows "approveProject d u i = Inr (saveProject
           (if 3 \<le> length (reviewedBy p @ [uid u])
            then p\<lparr>reviewedBy := reviewedBy p @ [uid u], status := Approved\<rparr>
            else p\<lparr>reviewedBy := reviewedBy p @ [uid u]\<rparr>) d)"
  using assms by (simp add: approveProject_def Let_def)

lemma reject_ok:
  assumes "role u = Faculty" and "c \<noteq> []" and "length c \<le> 2500"
    and "findProject d i = Some p"
    and "findUser d (faculty p) = Some owner" and "areaOfResearch owner = areaOfResearch u"
  shows "rejectProject d u i (Some c) = Inr (incProjectsReviewed
                (\<lambda>x. areaOfResearch x = areaOfResearch u \<and> role x = Faculty) (- 1)
                (saveProject (p\<lparr>rejectionComments := rejectionComments p @ [(uid u, c)],
                               status := Rejected\<rparr>) d))"
  using assms by (simp add: rejectProject_def)

lemma reject_bad_comment:
  assumes "comment = None \<or> comment = Some [] \<or> (\<exists>c. comment = Some c \<and> 2500 < length c)"
  shows "rejectProject d u i comment = Inl OnlyFacultyCanReject \<or>
         rejectProject d u i comment = Inl CommentRequired"
  using assms by (auto simp: rejectProject_def)

section \<open>The consensus rule\<close>

text \<open>
  C2. For a pending project: a rejection that is recorded carries a comment that is not
  empty and has at most 2500 code units, and it leaves the project rejected, whatever
  its list of approvals was; a rejection with no comment, an empty one or one over 2500
  fails and leaves the database as it was. An approval that is recorded appends the
  caller to reviewedBy, and the project is approved exactly when that tally has reached
  3, and is still pending below 3. Both routes do record for a faculty caller of the
  owner's area.
\<close>

theorem consensus_transitions:
  assumes "findProject d i = Some p" and "status p = Pending"
  shows
   "(rejectProject d u i comment = Inr d1 \<longrightarrow>
       (\<exists>c. comment = Some c \<and> c \<noteq> [] \<and> length c \<le> 2500 \<and>
          findProject d1 i =
            Some (p\<lparr>rejectionComments := rejectionComments p @ [(uid u, c)],
                    status := Rejected\<rparr>))) \<and>
    (comment = None \<or> comment = Some [] \<or> (\<exists>c. comment = Some c \<and> 2500 < length c) \<longrightarrow>
       (\<exists>e. rejectProject d u i comment = Inl e) \<and>
       dbAfter d (rejectProject d u i comment) = d) \<and>
    (approveProject d u i = Inr d2 \<longrightarrow>
       (\<exists>p'. findProject d2 i = Some p' \<and> reviewedBy p' = reviewedBy p @ [uid u] \<and>
          (status p' = Approved \<longleftrightarrow> 3 \<le> length (reviewedBy p')) \<and>
          (status p' = Pending \<longleftrightarrow> length (reviewedBy p') < 3))) \<and>
    (role u = Faculty \<and> findUser d (faculty p) = Some owner \<and>
     areaOfResearch owner = areaOfResearch u \<longrightarrow>
       (\<exists>d'. approveProject d u i = Inr d') \<and>
       (c \<noteq> [] \<and> length c \<le> 2500 \<longrightarrow> (\<exists>d'. rejectProject d u i (Some c) = Inr d')))"
proof (intro conjI impI)
  assume r: "rejectProject d u i comment = Inr d1"
  from r obtain q c' where c': "comment = Some c'" "c' \<noteq> []" "length c' \<le> 2500"
    and q: "findProject d i = Some q"
    and d1: "d1 = incProjectsReviewed
                (\<lambda>x. areaOfResearch x = areaOfResearch u \<and> role x = Faculty) (- 1)
                (saveProject (q\<lparr>rejectionComments := rejectionComments q @ [(uid u, c')],
                               status := Rejected\<rparr>) d)"
    by (rule rejectProject_Inr)
  from q assms have [simp]: "q = p" by simp
  have "findProject d1 i =
      Some (p\<lparr>rejectionComments := rejectionComments p @ [(uid u, c')], status := Rejected\<rparr>)"
    unfolding d1 using assms(1) findProject_pid [OF assms(1)]
    by (simp add: findProject_saveProject)
  with c' show "\<exists>c. comment = Some c \<and> c \<noteq> [] \<and> length c \<le> 2500 \<and>
          findProject d1 i =
            Some (p\<lparr>rejectionComments := rejectionComments p @ [(uid u, c)],
                    status := Rejected\<rparr>)"
    by blast
next
  assume bad: "comment = None \<or> comment = Some [] \<or> (\<exists>c. comment = Some c \<and> 2500 < length c)"
  from reject_bad_comment [OF bad, of d u i]
  show e: "\<exists>e. rejectProject d u i comment = Inl e" by blast
  then show "dbAfter d (rejectProject d u i comment) = d"
    by (auto simp: dbAfter_def)
next
  assume a: "approveProject d u i = Inr d2"
  let ?p' = "if 3 \<le> length (reviewedBy p @ [uid u])
            then p\<lparr>reviewedBy := reviewedBy p @ [uid u], status := Approved\<rparr>
            else p\<lparr>reviewedBy := reviewedBy p @ [uid u]\<rparr>"
  from a obtain q where q: "findProject d i = Some q"
    and d2: "d2 = saveProject
           (if 3 \<le> length (reviewedBy q @ [uid u])
            then q\<lparr>reviewedBy := reviewedBy q @ [uid u], status := Approved\<rparr>
            else q\<lparr>reviewedBy := reviewedBy q @ [uid u]\<rparr>) d"
    by (rule approveProject_Inr)
  from q assms have [simp]: "q = p" by simp
  have pid': "pid ?p' = i"
    using findProject_pid [OF assms(1)] by simp
  have d2': "d2 = saveProject ?p' d"
    using d2 by simp
  have f: "findProject d2 i = Some ?p'"
    unfolding d2' by (rule findProject_saveProject [OF assms(1) pid'])
  have "reviewedBy ?p' = reviewedBy p @ [uid u] \<and>
          (status ?p' = Approved \<longleftrightarrow> 3 \<le> length (reviewedBy ?p')) \<and>
          (status ?p' = Pending \<longleftrightarrow> length (reviewedBy ?p') < 3)"
    using assms(2) by simp
  with f show "\<exists>p'. findProject d2 i = Some p' \<and> reviewedBy p' = reviewedBy p @ [uid u] \<and>
          (status p' = Approved \<longleftrightarrow> 3 \<le> length (reviewedBy p')) \<and>
          (status p' = Pending \<longleftrightarrow> length (reviewedBy p') < 3)"
    by blast
next
  assume g: "role u = Faculty \<and> findUser d (faculty p) = Some owner \<and>
     areaOfResearch owner = areaOfResearch u"
  then show "\<exists>d'. approveProject d u i = Inr d'"
    using approve_ok [of u d i p owner] assms(1) by blast
  assume "c \<noteq> [] \<and> length c \<le> 2500"
  with g show "\<exists>d'. rejectProject d u i (Some c) = Inr d'"
    using reject_ok [of u c d i p owner] assms(1) by blast
qed

theorem consensus_transitions_witness:
  "findProject dbTwoApprovals 100 = Some (demoProject Pending [12, 13] [] 1) \<and>
   status (demoProject Pending [12, 13] [] 1) = Pending \<and>
   rejectProject dbTwoApprovals (mkFaculty 14 ''100004'' ''CS'' 1) 100 (Some ''needs more data'')
     = Inr dbRejectedAfterTwo \<and>
   findProject dbRejectedAfterTwo 100
     = Some (demoProject Rejected [12, 13] [(14, ''needs more data'')] 1) \<and>
   rejectProject dbTwoApprovals (mkFaculty 14 ''100004'' ''CS'' 1) 100 None
     = Inl CommentRequired \<and>
   approveProject dbTwoApprovals (mkFaculty 14 ''100004'' ''CS'' 1) 100 = Inr dbApproved \<and>
   findProject dbApproved 100 = Some (demoProject Approved [12, 13, 14] [] 1) \<and>
   approveProject dbProposed (mkFaculty 12 ''100002'' ''CS'' 1) 100 = Inr dbOneApproval \<and>
   findProject dbOneApproval 100 = Some (demoProject Pending [12] [] 1)"
proof -
  let ?u = "mkFaculty 14 ''100004'' ''CS'' 1"
  let ?p = "demoProject Pending [12, 13] [] 1"
  have f: "findProject dbTwoApprovals 100 = Some ?p"
    by (simp add: demo_defs route_defs)
  have s: "status ?p = Pending"
    by (simp add: demo_defs)
  have r: "rejectProject dbTwoApprovals ?u 100 (Some ''needs more data'') = Inr dbRejectedAfterTwo"
    by (simp add: demo_defs route_defs)
  have n: "rejectProject dbTwoApprovals ?u 100 None = Inl CommentRequired"
    by (simp add: demo_defs route_defs)
  have a: "approveProject dbTwoApprovals ?u 100 = Inr dbApproved"
    by (simp add: demo_defs route_defs)
  have a1: "approveProject dbProposed (mkFaculty 12 ''100002'' ''CS'' 1) 100 = Inr dbOneApproval"
    by (simp add: demo_defs route_defs)
  have f1: "findProject dbOneApproval 100 = Some (demoProject Pending [12] [] 1)"
    by (simp add: demo_defs route_defs)
  have f2: "findProject dbApproved 100 = Some (demoProject Approved [12, 13, 14] [] 1)"
    by (simp add: demo_defs route_defs)
  from consensus_transitions [OF f s, of ?u "Some ''needs more data''" dbRejectedAfterTwo
      dbApproved "mkFaculty 11 ''100001'' ''CS'' 0" "''needs more data''"] r
  have "findProject dbRejectedAfterTwo 100 =
      Some (?p\<lparr>rejectionComments := rejectionComments ?p @ [(uid ?u, ''needs more data'')],
               status := Rejected\<rparr>)"
    by auto
  then have f3: "findProject dbRejectedAfterTwo 100
     = Some (demoProject Rejected [12, 13] [(14, ''needs more data'')] 1)"
    by (simp add: demo_defs)
  from f s r f3 n a f2 a1 f1 show ?thesis by blast
qed

section \<open>Reviews of a project that is no longer pending\<close>

text \<open>
  C3 at a concrete input: the review routes do not read the project's status. Project
  100 is approved with approvals of 12, 13 and 14; the rejection of faculty 15 is
  accepted, the project becomes rejected and the load counter of every faculty of the
  area drops by 1. And project 100, rejected by 14 after the approvals of 12 and 13,
  becomes approved when faculty 15 approves it.
\<close>

theorem terminal_project_still_reviewed:
  "rejectProject dbApproved (mkFaculty 15 ''100005'' ''CS'' 1) 100 (Some ''needs more data'')
     = Inr dbApprovedThenRejected \<and>
   map status (projects dbApproved) = [Approved] \<and>
   map status (projects dbApprovedThenRejected) = [Rejected] \<and>
   map projectsReviewed (users dbApproved) = [0, 1, 1, 1, 1, 1, 0, 0, 0, 0] \<and>
   map projectsReviewed (users dbApprovedThenRejected) = [- 1, 0, 0, 0, 0, 0, - 1, 0, 0, 0] \<and>
   approveProject dbRejectedAfterTwo (mkFaculty 15 ''100005'' ''CS'' 0) 100 = Inr dbReopened \<and>
   map status (projects dbRejectedAfterTwo) = [Rejected] \<and>
   map status (projects dbReopened) = [Approved] \<and>
   map reviewedBy (projects dbReopened) = [[12, 13, 15]]"
  by (simp add: demo_defs route_defs)

section \<open>Load counters when a review cycle ends\<close>

text \<open>
  C4 at a concrete input: the panel of project 100 is faculty 12 to 16, each with load
  counter 1. The third approval makes the project approved and changes no counter. A
  rejection makes it rejected and subtracts 1 from the counter of every faculty of the
  caller's area: the five of the panel, and also the owner 11 and faculty 17, who end
  at -1.
\<close>

theorem load_counters_on_terminal_transition:
  "approveProject dbTwoApprovals (mkFaculty 14 ''100004'' ''CS'' 1) 100 = Inr dbApproved \<and>
   map status (projects dbTwoApprovals) = [Pending] \<and>
   map status (projects dbApproved) = [Approved] \<and>
   map projectsReviewed (users dbTwoApprovals) = [0, 1, 1, 1, 1, 1, 0, 0, 0, 0] \<and>
   map projectsReviewed (users dbApproved) = [0, 1, 1, 1, 1, 1, 0, 0, 0, 0] \<and>
   rejectProject dbTwoApprovals (mkFaculty 14 ''100004'' ''CS'' 1) 100 (Some ''needs more data'')
     = Inr dbRejectedAfterTwo \<and>
   map uid (users dbRejectedAfterTwo) = [11, 13, 12, 14, 15, 16, 17, 18, 21, 22] \<and>
   map projectsReviewed (users dbRejectedAfterTwo) = [- 1, 0, 0, 0, 0, 0, - 1, 0, 0, 0]"
  by (simp add: demo_defs route_defs)

section \<open>What each route writes\<close>

lemma createProject_Inr:
  assumes "createProject d u ttl abstr tline sts newId = Inr d'"
  obtains reviewers where "role u = Faculty" and "length abstr \<le> 2500"
    and "getNextReviewers d (areaOfResearch u) (uid u) (projectCount d (areaOfResearch u))
           = Inr reviewers"
    and "find (\<lambda>r. projectsReviewed r \<ge> 7) reviewers = None"
    and "validProject \<lparr>pid = newId, title = ttl, abstract = abstr, timeline = tline,
           seats = sts, seatsAvailable = sts, faculty = uid u, status = Pending,
           reviewedBy = [], rejectionComments = []\<rparr>"
    and "d' = incProjectsReviewed (\<lambda>x. uid x \<in> set (map uid reviewers)) 1
                (d\<lparr>projects := projects d @
                   [\<lparr>pid = newId, title = ttl, abstract = abstr, timeline = tline,
                     seats = sts, seatsAvailable = sts, faculty = uid u, status = Pending,
                     reviewedBy = [], rejectionComments = []\<rparr>]\<rparr>)"
  using assms
  by (auto simp: createProject_def Let_def split: if_splits option.splits sum.splits)

lemma selectApplication_Inr:
  assumes "selectApplication d u i = Inr d'"
  obtains a p s where "role u = Faculty" and "findApplication d i = Some a"
    and "findProject d (project a) = Some p" and "faculty p = uid u"
    and "findUser d (student a) = Some s"
    and "find (\<lambda>b. student b = uid s \<and> appStatus b = AppSelected) (applications d) = None"
    and "d' = (saveApplication (a\<lparr>appStatus := AppSelected\<rparr>) d)
           \<lparr>applications :=
              map (\<lambda>b. if student b = uid s \<and> aid b \<noteq> aid a
                        then b\<lparr>appStatus := AppRejected\<rparr> else b)
                (applications (saveApplication (a\<lparr>appStatus := AppSelected\<rparr>) d))\<rparr>"
  using assms
  by (auto simp: selectApplication_def Let_def split: if_splits option.splits)

lemma projects_saveApplication [simp]: "projects (saveApplication a d) = projects d"
  by (simp add: saveApplication_def)

lemma users_saveApplication [simp]: "users (saveApplication a d) = users d"
  by (simp add: saveApplication_def)

lemma findProject_saveApplication [simp]:
  "findProject (saveApplication a d) i = findProject d i"
  by (simp add: findProject_def)

section \<open>Proposing a project\<close>

lemma find_None_set: "find P xs = None \<longleftrightarrow> \<not> list_ex P xs"
  by (auto simp: find_None_iff list_ex_iff)


lemma find_key_map:
  assumes "\<And>x. key (h x) = key x"
  shows "find (\<lambda>x. key x = i) (map h xs) = map_option h (find (\<lambda>x. key x = i) xs)"
  by (induction xs) (simp_all add: assms)

lemma findUser_incProjectsReviewed:
  "findUser (incProjectsReviewed sel k d) j =
     map_option (\<lambda>u. if sel u then u\<lparr>projectsReviewed := projectsReviewed u + k\<rparr> else u)
       (findUser d j)"
  unfolding findUser_def incProjectsReviewed_def
  using find_key_map [of uid "\<lambda>u. if sel u then u\<lparr>projectsReviewed := projectsReviewed u + k\<rparr> else u"
      j "users d"]
  by simp

lemma find_overloaded:
  "find (\<lambda>r. projectsReviewed r \<ge> 7) (rs :: user list) = None
     \<longleftrightarrow> (\<forall>r \<in> set rs. projectsReviewed r < 7)"
  by (auto simp: find_None_iff not_le)

text \<open>
  C9. For a faculty caller whose abstract is short enough and for whom getNextReviewers
  returns a panel: when a member of the panel has projectsReviewed at 7 or more, the
  proposal fails with HighVolumeUnderReview and the database is as it was; when the
  proposal succeeds, no member was at 7, the new pending project is appended, and the
  counter of a user is one more if the user is on the panel and unchanged otherwise; and
  it does succeed when no member is at 7 and the project passes the schema's validators.
\<close>

theorem createProject_workload:
  assumes "role u = Faculty" and "length abstr \<le> 2500"
    and "getNextReviewers d (areaOfResearch u) (uid u) (projectCount d (areaOfResearch u))
           = Inr reviewers"
  shows
   "((\<exists>r \<in> set reviewers. 7 \<le> projectsReviewed r) \<longrightarrow>
       createProject d u ttl abstr tline sts newId = Inl HighVolumeUnderReview \<and>
       dbAfter d (createProject d u ttl abstr tline sts newId) = d) \<and>
    (createProject d u ttl abstr tline sts newId = Inr d' \<longrightarrow>
       (\<forall>r \<in> set reviewers. projectsReviewed r < 7) \<and>
       projects d' = projects d @
         [\<lparr>pid = newId, title = ttl, abstract = abstr, timeline = tline, seats = sts,
           seatsAvailable = sts, faculty = uid u, status = Pending, reviewedBy = [],
           rejectionComments = []\<rparr>] \<and>
       applications d' = applications d \<and>
       map uid (users d') = map uid (users d) \<and>
       (\<forall>j x. findUser d j = Some x \<longrightarrow>
          findUser d' j =
            Some (if j \<in> set (map uid reviewers)
                  then x\<lparr>projectsReviewed := projectsReviewed x + 1\<rparr> else x))) \<and>
    ((\<forall>r \<in> set reviewers. projectsReviewed r < 7) \<and> ttl \<noteq> [] \<and> abstr \<noteq> [] \<and> tline \<noteq> [] \<and>
     jsLe (Finite 1) sts \<longrightarrow> (\<exists>d'. createProject d u ttl abstr tline sts newId = Inr d'))"
proof (intro conjI impI)
  let ?p = "\<lparr>pid = newId, title = ttl, abstract = abstr, timeline = tline, seats = sts,
           seatsAvailable = sts, faculty = uid u, status = Pending, reviewedBy = [],
           rejectionComments = []\<rparr>"
  {
    assume "\<exists>r \<in> set reviewers. 7 \<le> projectsReviewed r"
    then have "find (\<lambda>r. projectsReviewed r \<ge> 7) reviewers \<noteq> None"
      by (auto simp: find_None_iff)
    then obtain r where "find (\<lambda>r. projectsReviewed r \<ge> 7) reviewers = Some r"
      by blast
    with assms show e: "createProject d u ttl abstr tline sts newId = Inl HighVolumeUnderReview"
      by (simp add: createProject_def)
    then show "dbAfter d (createProject d u ttl abstr tline sts newId) = d"
      by (simp add: dbAfter_def)
  }
  {
    assume ok: "createProject d u ttl abstr tline sts newId = Inr d'"
    from ok obtain rs :: "user list" where
      rs: "getNextReviewers d (areaOfResearch u) (uid u) (projectCount d (areaOfResearch u))
           = Inr rs"
      and none: "find (\<lambda>r. projectsReviewed r \<ge> 7) rs = None"
      and d': "d' = incProjectsReviewed (\<lambda>x. uid x \<in> set (map uid rs)) 1
                (d\<lparr>projects := projects d @ [?p]\<rparr>)"
      by (rule createProject_Inr)
    from rs assms(3) have [simp]: "rs = reviewers" by simp
    from none show "\<forall>r \<in> set reviewers. projectsReviewed r < 7"
      by (simp add: find_overloaded)
    show "projects d' = projects d @ [?p]"
      by (simp add: d')
    show "applications d' = applications d"
      by (simp add: d')
    show "map uid (users d') = map uid (users d)"
      by (simp add: d' incProjectsReviewed_def comp_def)
    show "\<forall>j x. findUser d j = Some x \<longrightarrow>
          findUser d' j =
            Some (if j \<in> set (map uid reviewers)
                  then x\<lparr>projectsReviewed := projectsReviewed x + 1\<rparr> else x)"
    proof (intro allI impI)
      fix j x assume x: "findUser d j = Some x"
      then have "uid x = j" by (rule findUser_uid)
      moreover have "findUser (d\<lparr>projects := projects d @ [?p]\<rparr>) j = Some x"
        using x by (simp add: findUser_def)
      ultimately show "findUser d' j =
            Some (if j \<in> set (map uid reviewers)
                  then x\<lparr>projectsReviewed := projectsReviewed x + 1\<rparr> else x)"
        by (simp add: d' findUser_incProjectsReviewed)
    qed
  }
  {
    assume a: "(\<forall>r \<in> set reviewers. projectsReviewed r < 7) \<and> ttl \<noteq> [] \<and> abstr \<noteq> [] \<and>
      tline \<noteq> [] \<and> jsLe (Finite 1) sts"
    then have "find (\<lambda>r. projectsReviewed r \<ge> 7) reviewers = None"
      by (simp add: find_overloaded)
    moreover from a assms(2) have "validProject ?p"
      by (simp add: validProject_def jsLe_one_zero)
    ultimately show "\<exists>d'. createProject d u ttl abstr tline sts newId = Inr d'"
      using assms by (simp add: createProject_def)
  }
qed

theorem createProject_workload_witness:
  "role (mkFaculty 11 ''100001'' ''CS'' 0) = Faculty \<and>
   length ''Type inference'' \<le> 2500 \<and>
   getNextReviewers dbEmpty (Some ''CS'') 11 (projectCount dbEmpty (Some ''CS''))
     = Inr [mkFaculty 12 ''100002'' ''CS'' 0, mkFaculty 13 ''100003'' ''CS'' 0,
            mkFaculty 14 ''100004'' ''CS'' 0, mkFaculty 15 ''100005'' ''CS'' 0,
            mkFaculty 16 ''100006'' ''CS'' 0] \<and>
   createProject dbEmpty (mkFaculty 11 ''100001'' ''CS'' 0)
       ''Compilers'' ''Type inference'' ''6 months'' (Finite 1) 100 = Inr dbProposed \<and>
   map projectsReviewed (users dbEmpty) = [0, 0, 0, 0, 0, 0, 0, 0, 0, 0] \<and>
   map projectsReviewed (users dbProposed) = [0, 1, 1, 1, 1, 1, 0, 0, 0, 0] \<and>
   findUser dbProposed 12 = Some (mkFaculty 12 ''100002'' ''CS'' 1) \<and>
   getNextReviewers dbOverloaded (Some ''CS'') 11 (projectCount dbOverloaded (Some ''CS''))
     = Inr [mkFaculty 12 ''100002'' ''CS'' 7, mkFaculty 13 ''100003'' ''CS'' 7,
            mkFaculty 14 ''100004'' ''CS'' 7, mkFaculty 15 ''100005'' ''CS'' 7,
            mkFaculty 16 ''100006'' ''CS'' 7] \<and>
   createProject dbOverloaded (mkFaculty 11 ''100001'' ''CS'' 0)
       ''Compilers'' ''Type inference'' ''6 months'' (Finite 1) 100 = Inl HighVolumeUnderReview"
proof -
  let ?u = "mkFaculty 11 ''100001'' ''CS'' 0"
  let ?rs = "\<lambda>n. [mkFaculty 12 ''100002'' ''CS'' n, mkFaculty 13 ''100003'' ''CS'' n,
            mkFaculty 14 ''100004'' ''CS'' n, mkFaculty 15 ''100005'' ''CS'' n,
            mkFaculty 16 ''100006'' ''CS'' n]"
  have u: "role ?u = Faculty" "areaOfResearch ?u = Some ''CS''" "uid ?u = 11"
    by (simp_all add: demo_defs)
  have l: "length ''Type inference'' \<le> 2500" by simp
  have g: "getNextReviewers dbEmpty (Some ''CS'') 11 (projectCount dbEmpty (Some ''CS'')) = Inr (?rs 0)"
    by (simp add: demo_defs route_defs pushReviewers.simps)
  have g7: "getNextReviewers dbOverloaded (Some ''CS'') 11 (projectCount dbOverloaded (Some ''CS''))
      = Inr (?rs 7)"
    by (simp add: demo_defs route_defs pushReviewers.simps)
  have ok: "createProject dbEmpty ?u ''Compilers'' ''Type inference'' ''6 months'' (Finite 1) 100
      = Inr dbProposed"
    by (simp add: demo_defs route_defs pushReviewers.simps)
  have c: "map projectsReviewed (users dbEmpty) = [0, 0, 0, 0, 0, 0, 0, 0, 0, 0]"
    "map projectsReviewed (users dbProposed) = [0, 1, 1, 1, 1, 1, 0, 0, 0, 0]"
    by (simp_all add: demo_defs)
  have f: "findUser dbEmpty 12 = Some (mkFaculty 12 ''100002'' ''CS'' 0)"
    by (simp add: demo_defs route_defs)
  have m: "12 \<in> set (map uid (?rs 0))"
    by (simp add: demo_defs)
  have over: "\<exists>r \<in> set (?rs 7). 7 \<le> projectsReviewed r"
    by (simp add: demo_defs)
  from createProject_workload [of ?u "''Type inference''" dbEmpty "?rs 0" "''Compilers''"
      "''6 months''" "Finite 1" 100 dbProposed] u l g ok f m
  have "findUser dbProposed 12 =
      Some ((mkFaculty 12 ''100002'' ''CS'' 0)
              \<lparr>projectsReviewed := projectsReviewed (mkFaculty 12 ''100002'' ''CS'' 0) + 1\<rparr>)"
    by (simp del: set_map list.map)
  then have f': "findUser dbProposed 12 = Some (mkFaculty 12 ''100002'' ''CS'' 1)"
    by (simp add: demo_defs)
  have g7': "getNextReviewers dbOverloaded (areaOfResearch ?u) (uid ?u)
      (projectCount dbOverloaded (areaOfResearch ?u)) = Inr (?rs 7)"
    unfolding u by (rule g7)
  from createProject_workload [OF u(1) l g7', of "''Compilers''" "''6 months''" "Finite 1" 100] over
  have hv: "createProject dbOverloaded ?u ''Compilers'' ''Type inference'' ''6 months'' (Finite 1) 100
      = Inl HighVolumeUnderReview"
    by blast
  from u l g ok c f' g7 hv show ?thesis by simp
qed

section \<open>Selecting a student\<close>

lemma selectedOf_empty:
  "selectedOf d s = [] \<longleftrightarrow>
     find (\<lambda>b. student b = s \<and> appStatus b = AppSelected) (applications d) = None"
  by (auto simp: selectedOf_def find_None_iff filter_empty_conv)

lemma findApplication_mem: "findApplication d i = Some a \<Longrightarrow> a \<in> set (applications d)"
  by (auto simp: findApplication_def dest: find_SomeD)

text \<open>The route's two writes, \<^verbatim>\<open>application.save()\<close> and the \<^verbatim>\<open>updateMany\<close>
  over the student's other applications, are one pass over the collection.\<close>

lemma select_writes:
  assumes "aid a = i" and "uid s = student a"
  shows "(\<lambda>b. if student b = student a \<and> aid b \<noteq> aid a
               then b\<lparr>appStatus := AppRejected\<rparr> else b) \<circ>
         (\<lambda>b. if aid b = aid a then a\<lparr>appStatus := AppSelected\<rparr> else b)
         = (\<lambda>b. if aid b = i then a\<lparr>appStatus := AppSelected\<rparr>
                 else if student b = student a then b\<lparr>appStatus := AppRejected\<rparr> else b)"
  using assms by (auto simp: fun_eq_iff)

lemma selectApplication_student:
  assumes "role u = Faculty" and "findApplication d i = Some a"
    and "findProject d (project a) = Some p" and "findUser d (student a) = Some s"
  shows "selectApplication d u i =
     (if faculty p \<noteq> uid u then Inl NotAuthorized
      else if selectedOf d (student a) \<noteq> [] then Inl StudentAlreadySelected
      else Inr (d\<lparr>applications :=
                  map (\<lambda>b. if aid b = i then a\<lparr>appStatus := AppSelected\<rparr>
                            else if student b = student a then b\<lparr>appStatus := AppRejected\<rparr>
                            else b) (applications d)\<rparr>))"
proof -
  have i: "aid a = i" by (rule findApplication_aid [OF assms(2)])
  have s: "uid s = student a" by (rule findUser_uid [OF assms(4)])
  show ?thesis
  proof (cases "find (\<lambda>b. student b = student a \<and> appStatus b = AppSelected) (applications d)")
    case None
    then have "selectedOf d (student a) = []" by (simp add: selectedOf_empty)
    with None assms s show ?thesis
      by (simp add: selectApplication_def Let_def saveApplication_def select_writes [OF i s])
  next
    case (Some b)
    then have "selectedOf d (student a) \<noteq> []" by (simp add: selectedOf_empty)
    with Some assms s show ?thesis
      by (simp add: selectApplication_def)
  qed
qed

lemma selected_after_none:
  assumes "\<forall>b \<in> set xs. aid b \<noteq> i"
  shows "filter (\<lambda>b. student b = student a \<and> appStatus b = AppSelected)
           (map (\<lambda>b. if aid b = i then a\<lparr>appStatus := AppSelected\<rparr>
                     else if student b = student a then b\<lparr>appStatus := AppRejected\<rparr> else b) xs)
         = []"
  using assms by (induction xs) auto

lemma selected_after_one:
  assumes "distinct (map aid xs)" and "a \<in> set xs" and "aid a = i"
  shows "filter (\<lambda>b. student b = student a \<and> appStatus b = AppSelected)
           (map (\<lambda>b. if aid b = i then a\<lparr>appStatus := AppSelected\<rparr>
                     else if student b = student a then b\<lparr>appStatus := AppRejected\<rparr> else b) xs)
         = [a\<lparr>appStatus := AppSelected\<rparr>]"
  using assms
proof (induction xs)
  case Nil
  then show ?case by simp
next
  case (Cons x xs)
  show ?case
  proof (cases "x = a")
    case True
    with Cons.prems have "aid a \<notin> aid ` set xs" by simp
    then have "\<forall>b \<in> set xs. aid b \<noteq> i"
      unfolding Cons.prems(3) [symmetric] by (metis imageI)
    then show ?thesis
      using True Cons.prems(3) selected_after_none [of xs i a] by simp
  next
    case False
    with Cons.prems have mem: "a \<in> set xs" by simp
    with Cons.prems have "aid x \<noteq> i" by force
    moreover from Cons.prems have "distinct (map aid xs)" by simp
    ultimately show ?thesis
      using Cons.IH [OF _ mem Cons.prems(3)] by simp
  qed
qed

lemma selected_of_others:
  assumes "\<forall>b \<in> set xs. aid b = i \<longrightarrow> student b = student a" and "t \<noteq> student a"
  shows "filter (\<lambda>b. student b = t \<and> appStatus b = AppSelected)
           (map (\<lambda>b. if aid b = i then a\<lparr>appStatus := AppSelected\<rparr>
                     else if student b = student a then b\<lparr>appStatus := AppRejected\<rparr> else b) xs)
         = filter (\<lambda>b. student b = t \<and> appStatus b = AppSelected) xs"
  using assms by (induction xs) auto

lemma distinct_key_unique:
  assumes "distinct (map key xs)" and "a \<in> set xs" and "b \<in> set xs" and "key b = key a"
  shows "b = a"
  using assms by (meson distinct_map inj_onD)

text \<open>
  C7. For a faculty caller and an application whose project and student exist
  (application ids being unique, as \<^verbatim>\<open>_id\<close> is): the selection fails with
  NotAuthorized unless the caller owns the application's project; it fails if the
  student has a selected application anywhere, for the owner with
  StudentAlreadySelected; and for the owner it succeeds otherwise. On success this application is selected, every other application
  of the same student is rejected whatever its status was, the applications of other
  students, the projects (their seatsAvailable with them) and the users are unchanged,
  and the student has exactly one selected application; the selected applications of
  every other student are as before.
\<close>

theorem selectApplication_outcomes:
  assumes "role u = Faculty" and "findApplication d i = Some a"
    and "findProject d (project a) = Some p" and "findUser d (student a) = Some s"
    and "distinct (map aid (applications d))"
  shows
   "(faculty p \<noteq> uid u \<longrightarrow> selectApplication d u i = Inl NotAuthorized) \<and>
    (faculty p = uid u \<and> selectedOf d (student a) \<noteq> [] \<longrightarrow>
       selectApplication d u i = Inl StudentAlreadySelected) \<and>
    (selectedOf d (student a) \<noteq> [] \<longrightarrow> (\<exists>e. selectApplication d u i = Inl e)) \<and>
    (faculty p = uid u \<and> selectedOf d (student a) = [] \<longrightarrow>
       (\<exists>d'. selectApplication d u i = Inr d')) \<and>
    (selectApplication d u i = Inr d' \<longrightarrow>
       faculty p = uid u \<and> selectedOf d (student a) = [] \<and>
       applications d' =
         map (\<lambda>b. if aid b = i then a\<lparr>appStatus := AppSelected\<rparr>
                   else if student b = student a then b\<lparr>appStatus := AppRejected\<rparr>
                   else b) (applications d) \<and>
       projects d' = projects d \<and> users d' = users d \<and>
       selectedOf d' (student a) = [a\<lparr>appStatus := AppSelected\<rparr>] \<and>
       (\<forall>t. t \<noteq> student a \<longrightarrow> selectedOf d' t = selectedOf d t))"
proof -
  let ?h = "\<lambda>b. if aid b = i then a\<lparr>appStatus := AppSelected\<rparr>
                 else if student b = student a then b\<lparr>appStatus := AppRejected\<rparr> else b"
  note eq = selectApplication_student [OF assms(1-4)]
  have i: "aid a = i" by (rule findApplication_aid [OF assms(2)])
  have mem: "a \<in> set (applications d)" by (rule findApplication_mem [OF assms(2)])
  have c1: "faculty p \<noteq> uid u \<longrightarrow> selectApplication d u i = Inl NotAuthorized"
    by (simp add: eq)
  have c2: "faculty p = uid u \<and> selectedOf d (student a) \<noteq> [] \<longrightarrow>
       selectApplication d u i = Inl StudentAlreadySelected"
    by (simp add: eq)
  have c2': "selectedOf d (student a) \<noteq> [] \<longrightarrow> (\<exists>e. selectApplication d u i = Inl e)"
    by (simp add: eq)
  have c3: "faculty p = uid u \<and> selectedOf d (student a) = [] \<longrightarrow>
       (\<exists>d'. selectApplication d u i = Inr d')"
    by (simp add: eq)
  have c4: "faculty p = uid u \<and> selectedOf d (student a) = [] \<and>
       applications d' = map ?h (applications d) \<and>
       projects d' = projects d \<and> users d' = users d \<and>
       selectedOf d' (student a) = [a\<lparr>appStatus := AppSelected\<rparr>] \<and>
       (\<forall>t. t \<noteq> student a \<longrightarrow> selectedOf d' t = selectedOf d t)"
    if ok: "selectApplication d u i = Inr d'"
  proof -
    from ok have g: "faculty p = uid u" "selectedOf d (student a) = []"
      by (simp_all add: eq split: if_splits)
    with ok have d': "d' = d\<lparr>applications := map ?h (applications d)\<rparr>"
      by (simp add: eq)
    have apps: "applications d' = map ?h (applications d)"
      by (simp add: d')
    have one: "selectedOf d' (student a) = [a\<lparr>appStatus := AppSelected\<rparr>]"
      unfolding selectedOf_def apps
      by (rule selected_after_one [OF assms(5) mem i])
    have uniq: "\<forall>b \<in> set (applications d). aid b = i \<longrightarrow> student b = student a"
      using distinct_key_unique [OF assms(5) mem] i by auto
    have others: "\<forall>t. t \<noteq> student a \<longrightarrow> selectedOf d' t = selectedOf d t"
      unfolding selectedOf_def apps
      using selected_of_others [OF uniq] by blast
    from g apps one others show ?thesis
      by (simp add: d')
  qed
  from c1 c2 c2' c3 c4 show ?thesis by blast
qed

theorem selectApplication_outcomes_witness:
  "role (mkFaculty 11 ''100001'' ''CS'' 0) = Faculty \<and>
   findApplication dbTwoApplications 201 = Some (mkApplication 201 21 101 AppPending) \<and>
   findProject dbTwoApplications (project (mkApplication 201 21 101 AppPending))
     = Some (approvedProject 101 1) \<and>
   findUser dbTwoApplications (student (mkApplication 201 21 101 AppPending))
     = Some (mkStudent 21 ''24CSE00001'') \<and>
   distinct (map aid (applications dbTwoApplications)) \<and>
   selectApplication dbTwoApplications (mkFaculty 11 ''100001'' ''CS'' 0) 201 = Inr dbSelected \<and>
   map appStatus (applications dbTwoApplications) = [AppPending, AppPending, AppPending] \<and>
   map appStatus (applications dbSelected) = [AppRejected, AppPending, AppSelected] \<and>
   selectedOf dbSelected 21 = [mkApplication 201 21 101 AppSelected] \<and>
   map seatsAvailable (projects dbTwoApplications) = [Finite 0, Finite 1, Finite 2] \<and>
   map seatsAvailable (projects dbSelected) = [Finite 0, Finite 1, Finite 2] \<and>
   selectApplication dbTwoApplications (mkFaculty 12 ''100002'' ''CS'' 0) 201
     = Inl NotAuthorized \<and>
   selectApplication dbSelected (mkFaculty 11 ''100001'' ''CS'' 0) 200
     = Inl StudentAlreadySelected"
proof -
  let ?u = "mkFaculty 11 ''100001'' ''CS'' 0"
  let ?v = "mkFaculty 12 ''100002'' ''CS'' 0"
  let ?a = "mkApplication 201 21 101 AppPending"
  let ?b = "mkApplication 200 21 100 AppRejected"
  have r: "role ?u = Faculty" "role ?v = Faculty"
    by (simp_all add: demo_defs)
  have fa: "findApplication dbTwoApplications 201 = Some ?a"
    by (simp add: demo_defs route_defs)
  have fp: "findProject dbTwoApplications (project ?a) = Some (approvedProject 101 1)"
    by (simp add: demo_defs route_defs)
  have fs: "findUser dbTwoApplications (student ?a) = Some (mkStudent 21 ''24CSE00001'')"
    by (simp add: demo_defs route_defs)
  have di: "distinct (map aid (applications dbTwoApplications))"
    by (simp add: demo_defs)
  have ok: "selectApplication dbTwoApplications ?u 201 = Inr dbSelected"
    by (simp add: demo_defs route_defs)
  have st: "map appStatus (applications dbTwoApplications) = [AppPending, AppPending, AppPending]"
    "map appStatus (applications dbSelected) = [AppRejected, AppPending, AppSelected]"
    "map seatsAvailable (projects dbTwoApplications) = [Finite 0, Finite 1, Finite 2]"
    "map seatsAvailable (projects dbSelected) = [Finite 0, Finite 1, Finite 2]"
    by (simp_all add: demo_defs)
  from selectApplication_outcomes [OF r(1) fa fp fs di, of dbSelected] ok
  have "selectedOf dbSelected (student ?a) = [?a\<lparr>appStatus := AppSelected\<rparr>]"
    by blast
  then have one: "selectedOf dbSelected 21 = [mkApplication 201 21 101 AppSelected]"
    by (simp add: mkApplication_def)
  have "faculty (approvedProject 101 1) \<noteq> uid ?v"
    by (simp add: demo_defs)
  with selectApplication_outcomes [OF r(2) fa fp fs di]
  have na: "selectApplication dbTwoApplications ?v 201 = Inl NotAuthorized"
    by blast
  have fb: "findApplication dbSelected 200 = Some ?b"
    "findProject dbSelected (project ?b) = Some (approvedProject 100 0)"
    "findUser dbSelected (student ?b) = Some (mkStudent 21 ''24CSE00001'')"
    "distinct (map aid (applications dbSelected))"
    by (simp_all add: demo_defs route_defs)
  have "faculty (approvedProject 100 0) = uid ?u \<and> selectedOf dbSelected (student ?b) \<noteq> []"
    by (simp add: demo_defs selectedOf_def)
  with selectApplication_outcomes [OF r(1) fb]
  have al: "selectApplication dbSelected ?u 200 = Inl StudentAlreadySelected"
    by blast
  from r(1) fa fp fs di ok st one na al show ?thesis by blast
qed

text \<open>
  C10. The select route never reads the status of the application it selects. For a
  faculty caller and an application whose project and student exist, the route fails
  exactly when the caller does not own the project or the student has a selected
  application; otherwise, whatever the application's own status (a rejected one
  included), it succeeds, the application is selected and no project changes, so no
  seatsAvailable does.
\<close>

theorem select_ignores_status:
  assumes "role u = Faculty" and "findApplication d i = Some a"
    and "findProject d (project a) = Some p" and "findUser d (student a) = Some s"
  shows
   "((\<exists>e. selectApplication d u i = Inl e) \<longleftrightarrow>
       faculty p \<noteq> uid u \<or> selectedOf d (student a) \<noteq> []) \<and>
    (faculty p = uid u \<and> selectedOf d (student a) = [] \<longrightarrow>
       (\<exists>d'. selectApplication d u i = Inr d' \<and>
          findApplication d' i = Some (a\<lparr>appStatus := AppSelected\<rparr>) \<and>
          projects d' = projects d))"
proof -
  let ?h = "\<lambda>b. if aid b = i then a\<lparr>appStatus := AppSelected\<rparr>
                 else if student b = student a then b\<lparr>appStatus := AppRejected\<rparr> else b"
  note eq = selectApplication_student [OF assms]
  have i: "aid a = i" by (rule findApplication_aid [OF assms(2)])
  have c1: "(\<exists>e. selectApplication d u i = Inl e) \<longleftrightarrow>
       faculty p \<noteq> uid u \<or> selectedOf d (student a) \<noteq> []"
    by (simp add: eq)
  have keep: "aid (?h b) = aid b" for b
    by (simp add: i)
  have "find (\<lambda>b. aid b = i) (map ?h (applications d))
      = map_option ?h (find (\<lambda>b. aid b = i) (applications d))"
    by (rule find_key_map [of aid ?h, OF keep])
  then have f: "findApplication (d\<lparr>applications := map ?h (applications d)\<rparr>) i
      = Some (a\<lparr>appStatus := AppSelected\<rparr>)"
    using assms(2) i by (simp add: findApplication_def)
  have c2: "\<exists>d'. selectApplication d u i = Inr d' \<and>
          findApplication d' i = Some (a\<lparr>appStatus := AppSelected\<rparr>) \<and>
          projects d' = projects d"
    if "faculty p = uid u \<and> selectedOf d (student a) = []"
  proof -
    from that have "selectApplication d u i = Inr (d\<lparr>applications := map ?h (applications d)\<rparr>)"
      by (simp add: eq)
    with f show ?thesis by simp
  qed
  from c1 c2 show ?thesis by blast
qed


theorem select_ignores_status_witness:
  "role (mkFaculty 11 ''100001'' ''CS'' 0) = Faculty \<and>
   findApplication dbAppRejected 200 = Some (demoApplication AppRejected) \<and>
   appStatus (demoApplication AppRejected) = AppRejected \<and>
   findProject dbAppRejected (project (demoApplication AppRejected))
     = Some (demoProject Approved [12, 13, 14] [] 1) \<and>
   findUser dbAppRejected (student (demoApplication AppRejected))
     = Some (mkStudent 21 ''24CSE00001'') \<and>
   faculty (demoProject Approved [12, 13, 14] [] 1) = uid (mkFaculty 11 ''100001'' ''CS'' 0) \<and>
   selectedOf dbAppRejected (student (demoApplication AppRejected)) = [] \<and>
   selectApplication dbAppRejected (mkFaculty 11 ''100001'' ''CS'' 0) 200
     = Inr dbRejectedThenSelected \<and>
   findApplication dbRejectedThenSelected 200 = Some (demoApplication AppSelected) \<and>
   map seatsAvailable (projects dbAppRejected) = [Finite 1] \<and>
   map seatsAvailable (projects dbRejectedThenSelected) = [Finite 1]"
proof -
  let ?u = "mkFaculty 11 ''100001'' ''CS'' 0"
  let ?a = "demoApplication AppRejected"
  let ?p = "demoProject Approved [12, 13, 14] [] 1"
  have r: "role ?u = Faculty"
    by (simp add: demo_defs)
  have fa: "findApplication dbAppRejected 200 = Some ?a"
    by (simp add: demo_defs route_defs)
  have fp: "findProject dbAppRejected (project ?a) = Some ?p"
    by (simp add: demo_defs route_defs)
  have fs: "findUser dbAppRejected (student ?a) = Some (mkStudent 21 ''24CSE00001'')"
    by (simp add: demo_defs route_defs)
  have g: "faculty ?p = uid ?u" "selectedOf dbAppRejected (student ?a) = []"
    "appStatus ?a = AppRejected"
    by (simp_all add: demo_defs selectedOf_def)
  have ok: "selectApplication dbAppRejected ?u 200 = Inr dbRejectedThenSelected"
    by (simp add: demo_defs route_defs)
  have st: "map seatsAvailable (projects dbAppRejected) = [Finite 1]"
    "map seatsAvailable (projects dbRejectedThenSelected) = [Finite 1]"
    by (simp_all add: demo_defs)
  from select_ignores_status [OF r fa fp fs] g ok
  have "findApplication dbRejectedThenSelected 200 = Some (?a\<lparr>appStatus := AppSelected\<rparr>)"
    by auto
  then have f': "findApplication dbRejectedThenSelected 200 = Some (demoApplication AppSelected)"
    by (simp add: demoApplication_def)
  from r fa fp fs g ok st f' show ?thesis by blast
qed

section \<open>The example sequences\<close>

lemmas seat_route_defs = applyToProject_def rejectApplication_def jsMinus_def toNumber_evals

lemmas seat_demo_defs =
  halfProject_def dbHalfSeat_def dbHalfSeatApplied_def dbHalfSeatRejected_def dbManySeats_def
  dbManySeatsApplied_def

lemma demo_steps:
  "step dbEmpty (CreateProject 11 ''Compilers'' ''Type inference'' ''6 months'' (Finite 1) 100)
     = dbProposed"
  "step dbProposed (ApproveProject 12 100) = dbOneApproval"
  "step dbOneApproval (ApproveProject 13 100) = dbTwoApprovals"
  "step dbTwoApprovals (ApproveProject 14 100) = dbApproved"
  "step dbApproved (ApplyToProject 21 100 (Some (Finite 9)) None 200) = dbApplied"
  "step dbApplied (RejectApplication 11 200) = dbAppRejected"
  "step dbAppRejected (RejectApplication 11 200) = dbAppRejectedTwice"
  by (simp_all add: step_def answered_def demo_defs route_defs seat_route_defs
        pushReviewers.simps)

lemma take_demoRequests:
  "take 6 demoRequests =
     [CreateProject 11 ''Compilers'' ''Type inference'' ''6 months'' (Finite 1) 100,
      ApproveProject 12 100, ApproveProject 13 100, ApproveProject 14 100,
      ApplyToProject 21 100 (Some (Finite 9)) None 200, RejectApplication 11 200]"
  by (simp add: demoRequests_def)

lemma run_demoRequests:
  "run dbEmpty (take 6 demoRequests) = dbAppRejected"
  "run dbEmpty demoRequests = dbAppRejectedTwice"
  unfolding take_demoRequests
  by (simp_all only: run_def demoRequests_def foldl.simps demo_steps)

lemma halfSeat_steps:
  "step dbEmpty (CreateProject 11 ''Compilers'' ''Type inference'' ''6 months'' (Finite (3 / 2)) 100)
     = demoDb (demoUsers 0 1 0) [(halfProject (3 / 2))\<lparr>status := Pending, reviewedBy := []\<rparr>] []"
  "step (demoDb (demoUsers 0 1 0) [(halfProject (3 / 2))\<lparr>status := Pending, reviewedBy := []\<rparr>] [])
      (ApproveProject 12 100)
     = demoDb (demoUsers 0 1 0) [(halfProject (3 / 2))\<lparr>status := Pending, reviewedBy := [12]\<rparr>] []"
  "step (demoDb (demoUsers 0 1 0) [(halfProject (3 / 2))\<lparr>status := Pending, reviewedBy := [12]\<rparr>] [])
      (ApproveProject 13 100)
     = demoDb (demoUsers 0 1 0)
         [(halfProject (3 / 2))\<lparr>status := Pending, reviewedBy := [12, 13]\<rparr>] []"
  "step (demoDb (demoUsers 0 1 0)
         [(halfProject (3 / 2))\<lparr>status := Pending, reviewedBy := [12, 13]\<rparr>] [])
      (ApproveProject 14 100)
     = demoDb (demoUsers 0 1 0) [halfProject (3 / 2)] []"
  "step (demoDb (demoUsers 0 1 0) [halfProject (3 / 2)] []) (ApplyToProject 21 100 None None 200)
     = dbHalfSeat"
  "step dbHalfSeat (ApplyToProject 22 100 None None 201) = dbHalfSeatApplied"
  "step dbHalfSeatApplied (RejectApplication 11 200)
     = demoDb (demoUsers 0 1 0) [halfProject (3 / 2)]
         [mkApplication 200 21 100 AppRejected, mkApplication 201 22 100 AppPending]"
  "step (demoDb (demoUsers 0 1 0) [halfProject (3 / 2)]
         [mkApplication 200 21 100 AppRejected, mkApplication 201 22 100 AppPending])
      (RejectApplication 11 201)
     = dbHalfSeatRejected"
  by (simp_all add: step_def answered_def demo_defs seat_demo_defs route_defs seat_route_defs
        pushReviewers.simps)

lemma take_halfSeatRequests:
  "take 5 halfSeatRequests =
     [CreateProject 11 ''Compilers'' ''Type inference'' ''6 months'' (Finite (3 / 2)) 100,
      ApproveProject 12 100, ApproveProject 13 100, ApproveProject 14 100,
      ApplyToProject 21 100 None None 200]"
  by (simp add: halfSeatRequests_def)

lemma run_halfSeatRequests:
  "run dbEmpty (take 5 halfSeatRequests) = dbHalfSeat"
  "run dbEmpty halfSeatRequests = dbHalfSeatRejected"
  unfolding take_halfSeatRequests
  by (simp_all only: run_def halfSeatRequests_def foldl.simps halfSeat_steps)

section \<open>Applying\<close>

lemma applyToProject_student:
  assumes "role u = Student" and "findProject d i = Some p"
  shows "applyToProject d u i cg sk newId =
     (if 3 \<le> length (applicationsOf d (uid u)) then Inl (MoreThan3Projects, d)
      else if list_ex (\<lambda>a. student a = uid u \<and> project a = i) (applications d)
        then Inl (AlreadyApplied, d)
      else if status p \<noteq> Approved then Inl (ProjectNotApproved, d)
      else if jsLe (seatsAvailable p) (Finite 0) then Inl (NoSeatsAvailable, d)
      else if cg = Some NaN then Inl (ServerError ValidationFailed, d)
      else if \<not> jsLe (Finite 0) (jsMinus (seatsAvailable p) (Finite 1))
        then Inl (ServerError ValidationFailed,
                  d\<lparr>applications := applications d @
                     [\<lparr>aid = newId, student = uid u, project = i,
                       appStatus = AppPending, cgpa = cg, skills = sk\<rparr>]\<rparr>)
      else Inr (saveProject (p\<lparr>seatsAvailable := jsMinus (seatsAvailable p) (Finite 1)\<rparr>)
                (d\<lparr>applications := applications d @
                     [\<lparr>aid = newId, student = uid u, project = i,
                       appStatus = AppPending, cgpa = cg, skills = sk\<rparr>]\<rparr>)))"
proof (cases "find (\<lambda>a. student a = uid u \<and> project a = i) (applications d)")
  case None
  then have "\<not> list_ex (\<lambda>a. student a = uid u \<and> project a = i) (applications d)"
    by (simp add: find_None_set)
  with None assms show ?thesis
    by (simp add: applyToProject_def applicationsOf_def Let_def)
next
  case (Some a)
  then have "list_ex (\<lambda>a. student a = uid u \<and> project a = i) (applications d)"
    using find_None_set [of "\<lambda>a. student a = uid u \<and> project a = i" "applications d"] by simp
  with Some assms show ?thesis
    by (simp add: applyToProject_def applicationsOf_def)
qed

text \<open>
  C6, as the route has it: the checks are made in order and the first that fails
  answers, with the database as it was. For a student and an existing project, the
  application fails with MoreThan3Projects exactly when the student has 3 or more
  applications, of any status; with AlreadyApplied exactly when the student has fewer
  than 3 and one of them is for this project; as not applicable (ProjectNotApproved or
  NoSeatsAvailable) exactly when neither holds and the project is not approved or its
  seatsAvailable is 0 or less. An error that comes with a changed database is the 500
  of a write that was refused. Otherwise, when seatsAvailable is at least 1 and the
  cgpa, if one is sent, is a number, the application succeeds: one pending application
  is appended, seatsAvailable of that project becomes seatsAvailable - 1 in the
  arithmetic of doubles, and users and the other projects are as before; for a whole
  seatsAvailable from 1 to \<open>2 ^ 53\<close> that is exactly one seat less.
\<close>

theorem applyToProject_outcomes:
  assumes "role u = Student" and "findProject d i = Some p"
  shows
   "(applyToProject d u i cg sk newId = Inl (MoreThan3Projects, d) \<longleftrightarrow>
       3 \<le> length (applicationsOf d (uid u))) \<and>
    (applyToProject d u i cg sk newId = Inl (AlreadyApplied, d) \<longleftrightarrow>
       length (applicationsOf d (uid u)) < 3 \<and>
       list_ex (\<lambda>a. student a = uid u \<and> project a = i) (applications d)) \<and>
    (applyToProject d u i cg sk newId = Inl (ProjectNotApproved, d) \<or>
     applyToProject d u i cg sk newId = Inl (NoSeatsAvailable, d) \<longleftrightarrow>
       length (applicationsOf d (uid u)) < 3 \<and>
       \<not> list_ex (\<lambda>a. student a = uid u \<and> project a = i) (applications d) \<and>
       (status p \<noteq> Approved \<or> jsLe (seatsAvailable p) (Finite 0))) \<and>
    (applyToProject d u i cg sk newId = Inl (e, d') \<and> d' \<noteq> d \<longrightarrow>
       e = ServerError ValidationFailed) \<and>
    (length (applicationsOf d (uid u)) < 3 \<and>
     \<not> list_ex (\<lambda>a. student a = uid u \<and> project a = i) (applications d) \<and>
     status p = Approved \<and> jsLe (Finite 1) (seatsAvailable p) \<and> cg \<noteq> Some NaN \<longrightarrow>
       (\<exists>d'. applyToProject d u i cg sk newId = Inr d' \<and>
          users d' = users d \<and>
          applications d' = applications d @
            [\<lparr>aid = newId, student = uid u, project = i, appStatus = AppPending,
              cgpa = cg, skills = sk\<rparr>] \<and>
          projects d' =
            map (\<lambda>q. if pid q = i
                      then p\<lparr>seatsAvailable := jsMinus (seatsAvailable p) (Finite 1)\<rparr> else q)
              (projects d) \<and>
          findProject d' i =
            Some (p\<lparr>seatsAvailable := jsMinus (seatsAvailable p) (Finite 1)\<rparr>))) \<and>
    (seatsAvailable p = Finite (of_int k) \<and> 1 \<le> k \<and> k \<le> 2 ^ 53 \<longrightarrow>
       jsMinus (seatsAvailable p) (Finite 1) = Finite (of_int (k - 1)))"
proof -
  let ?r = "applyToProject d u i cg sk newId"
  let ?n = "length (applicationsOf d (uid u))"
  let ?dup = "list_ex (\<lambda>a. student a = uid u \<and> project a = i) (applications d)"
  let ?p' = "p\<lparr>seatsAvailable := jsMinus (seatsAvailable p) (Finite 1)\<rparr>"
  let ?d0 = "d\<lparr>applications := applications d @
                     [\<lparr>aid = newId, student = uid u, project = i,
                       appStatus = AppPending, cgpa = cg, skills = sk\<rparr>]\<rparr>"
  note eq = applyToProject_student [OF assms, of cg sk newId]
  have pid: "pid p = i" by (rule findProject_pid [OF assms(2)])
  have c1: "?r = Inl (MoreThan3Projects, d) \<longleftrightarrow> 3 \<le> ?n"
    by (simp add: eq)
  have c2: "?r = Inl (AlreadyApplied, d) \<longleftrightarrow> ?n < 3 \<and> ?dup"
    by (simp add: eq not_le)
  have c3: "?r = Inl (ProjectNotApproved, d) \<or> ?r = Inl (NoSeatsAvailable, d) \<longleftrightarrow>
       ?n < 3 \<and> \<not> ?dup \<and> (status p \<noteq> Approved \<or> jsLe (seatsAvailable p) (Finite 0))"
    by (auto simp: eq not_le)
  have c4: "?r = Inl (e, d') \<and> d' \<noteq> d \<longrightarrow> e = ServerError ValidationFailed"
    by (auto simp: eq split: if_splits)
  have c5: "\<exists>d'. ?r = Inr d' \<and> users d' = users d \<and>
          applications d' = applications d @
            [\<lparr>aid = newId, student = uid u, project = i, appStatus = AppPending,
              cgpa = cg, skills = sk\<rparr>] \<and>
          projects d' = map (\<lambda>q. if pid q = i then ?p' else q) (projects d) \<and>
          findProject d' i = Some ?p'"
    if h: "?n < 3 \<and> \<not> ?dup \<and> status p = Approved \<and> jsLe (Finite 1) (seatsAvailable p) \<and>
      cg \<noteq> Some NaN"
  proof -
    from h have pos: "\<not> jsLe (seatsAvailable p) (Finite 0)"
      by (cases "seatsAvailable p") auto
    from h have "jsLe (Finite 0) (jsMinus (seatsAvailable p) (Finite 1))"
      by (simp add: jsMinus_one_nonneg)
    with h pos have r: "?r = Inr (saveProject ?p' ?d0)"
      by (simp add: eq)
    have f0: "findProject ?d0 i = Some p"
      using assms(2) by (simp add: findProject_def)
    have f: "findProject (saveProject ?p' ?d0) i = Some ?p'"
      by (rule findProject_saveProject [OF f0]) (simp add: pid)
    have "users (saveProject ?p' ?d0) = users d" by simp
    moreover have "applications (saveProject ?p' ?d0) = applications d @
            [\<lparr>aid = newId, student = uid u, project = i, appStatus = AppPending,
              cgpa = cg, skills = sk\<rparr>]" by simp
    moreover have "projects (saveProject ?p' ?d0) =
        map (\<lambda>q. if pid q = i then ?p' else q) (projects d)"
      by (simp add: saveProject_def pid)
    ultimately show ?thesis using r f by blast
  qed
  have c6: "seatsAvailable p = Finite (of_int k) \<and> 1 \<le> k \<and> k \<le> 2 ^ 53 \<longrightarrow>
       jsMinus (seatsAvailable p) (Finite 1) = Finite (of_int (k - 1))"
    using jsMinus_whole [of k] by auto
  from c1 c2 c3 c4 c5 c6 show ?thesis by blast
qed

theorem applyToProject_outcomes_witness:
  "role (mkStudent 21 ''24CSE00001'') = Student \<and>
   findProject dbSelected 102 = Some (approvedProject 102 2) \<and>
   length (applicationsOf dbSelected (uid (mkStudent 21 ''24CSE00001''))) < 3 \<and>
   status (approvedProject 102 2) = Approved \<and>
   jsLe (Finite 1) (seatsAvailable (approvedProject 102 2)) \<and>
   seatsAvailable (approvedProject 102 2) = Finite (of_int 2) \<and>
   applyToProject dbSelected (mkStudent 21 ''24CSE00001'') 102 None None 202
     = Inr dbThreeApplications \<and>
   findProject dbThreeApplications 102 = Some (approvedProject 102 1) \<and>
   findProject dbThreeApplications 100 = Some (approvedProject 100 0) \<and>
   3 \<le> length (applicationsOf dbThreeApplications (uid (mkStudent 21 ''24CSE00001''))) \<and>
   applyToProject dbThreeApplications (mkStudent 21 ''24CSE00001'') 100 None None 204
     = Inl (MoreThan3Projects, dbThreeApplications) \<and>
   role (mkStudent 22 ''24CSE00002'') = Student \<and>
   length (applicationsOf dbThreeApplications (uid (mkStudent 22 ''24CSE00002''))) < 3 \<and>
   applyToProject dbThreeApplications (mkStudent 22 ''24CSE00002'') 100 None None 204
     = Inl (AlreadyApplied, dbThreeApplications) \<and>
   findProject dbApplied 100 = Some (demoProject Approved [12, 13, 14] [] 0) \<and>
   applyToProject dbApplied (mkStudent 22 ''24CSE00002'') 100 None None 204
     = Inl (NoSeatsAvailable, dbApplied) \<and>
   findProject dbHalfSeat 100 = Some (halfProject (1 / 2)) \<and>
   applyToProject dbHalfSeat (mkStudent 22 ''24CSE00002'') 100 None None 201
     = Inl (ServerError ValidationFailed, dbHalfSeatApplied) \<and>
   dbHalfSeatApplied \<noteq> dbHalfSeat"
proof -
  let ?s = "mkStudent 21 ''24CSE00001''"
  let ?t = "mkStudent 22 ''24CSE00002''"
  have r: "role ?s = Student" "role ?t = Student"
    by (simp_all add: demo_defs)
  have f: "findProject dbSelected 102 = Some (approvedProject 102 2)"
    "findProject dbThreeApplications 100 = Some (approvedProject 100 0)"
    "findProject dbThreeApplications 102 = Some (approvedProject 102 1)"
    "findProject dbApplied 100 = Some (demoProject Approved [12, 13, 14] [] 0)"
    by (simp_all add: demo_defs route_defs)
  have n: "length (applicationsOf dbSelected (uid ?s)) < 3"
    "3 \<le> length (applicationsOf dbThreeApplications (uid ?s))"
    "length (applicationsOf dbThreeApplications (uid ?t)) < 3"
    "length (applicationsOf dbApplied (uid ?t)) < 3"
    by (simp_all add: demo_defs applicationsOf_def)
  have dup: "list_ex (\<lambda>a. student a = uid ?t \<and> project a = 100)
      (applications dbThreeApplications)"
    "\<not> list_ex (\<lambda>a. student a = uid ?t \<and> project a = 100) (applications dbApplied)"
    "\<not> list_ex (\<lambda>a. student a = uid ?s \<and> project a = 102) (applications dbSelected)"
    by (simp_all add: demo_defs)
  have p: "status (approvedProject 102 2) = Approved"
    "jsLe (Finite 1) (seatsAvailable (approvedProject 102 2))"
    "seatsAvailable (approvedProject 102 2) = Finite (of_int 2)"
    "jsLe (seatsAvailable (demoProject Approved [12, 13, 14] [] 0)) (Finite 0)"
    by (simp_all add: demo_defs)
  from applyToProject_outcomes [OF r(1) f(1), of None None 202 _ _ 2] n(1) dup(3) p
  obtain d' where d': "applyToProject dbSelected ?s 102 None None 202 = Inr d'"
    "users d' = users dbSelected"
    "applications d' = applications dbSelected @
            [\<lparr>aid = 202, student = uid ?s, project = 102, appStatus = AppPending,
              cgpa = None, skills = None\<rparr>]"
    "projects d' =
            map (\<lambda>q. if pid q = 102
                      then (approvedProject 102 2)
                        \<lparr>seatsAvailable := jsMinus (seatsAvailable (approvedProject 102 2)) (Finite 1)\<rparr>
                      else q)
              (projects dbSelected)"
    "jsMinus (seatsAvailable (approvedProject 102 2)) (Finite 1) = Finite (of_int (2 - 1))"
    by auto
  have "d' = dbThreeApplications"
    using d'(2,3,4) unfolding d'(5)
    by (cases d') (simp add: demo_defs)
  with d'(1) have ok: "applyToProject dbSelected ?s 102 None None 202 = Inr dbThreeApplications"
    by simp
  from applyToProject_outcomes [OF r(1) f(2), of None None 204] n(2)
  have many: "applyToProject dbThreeApplications ?s 100 None None 204
      = Inl (MoreThan3Projects, dbThreeApplications)"
    by blast
  from applyToProject_outcomes [OF r(2) f(2), of None None 204] n(3) dup(1)
  have twice: "applyToProject dbThreeApplications ?t 100 None None 204
      = Inl (AlreadyApplied, dbThreeApplications)"
    by blast
  from applyToProject_outcomes [OF r(2) f(4), of None None 204] n(4) dup(2) p(4)
  have "applyToProject dbApplied ?t 100 None None 204 = Inl (ProjectNotApproved, dbApplied) \<or>
     applyToProject dbApplied ?t 100 None None 204 = Inl (NoSeatsAvailable, dbApplied)"
    by blast
  moreover have "applyToProject dbApplied ?t 100 None None 204 \<noteq> Inl (ProjectNotApproved, dbApplied)"
    by (simp add: demo_defs route_defs applyToProject_def)
  ultimately have none: "applyToProject dbApplied ?t 100 None None 204
      = Inl (NoSeatsAvailable, dbApplied)"
    by blast
  have fh: "findProject dbHalfSeat 100 = Some (halfProject (1 / 2))"
    by (simp add: demo_defs seat_demo_defs route_defs)
  have half: "applyToProject dbHalfSeat ?t 100 None None 201
      = Inl (ServerError ValidationFailed, dbHalfSeatApplied)"
    "dbHalfSeatApplied \<noteq> dbHalfSeat"
    by (simp_all add: demo_defs seat_demo_defs route_defs seat_route_defs)
  from applyToProject_outcomes [OF r(2) fh, of None None 201 "ServerError ValidationFailed"
      dbHalfSeatApplied] half
  have "ServerError ValidationFailed = ServerError ValidationFailed" by blast
  from r f n p ok many twice none fh half show ?thesis by blast
qed

text \<open>
  C6 as stated fails at four inputs. Where two conditions meet: student 21 has three
  applications, one of them for project 100, applies to project 100 again and is
  answered MoreThan3Projects, not AlreadyApplied. Where the seats are not whole: project
  100 was proposed with one and a half seats and has half a seat left; student 22
  applies, the application is stored, no seat is taken and the answer is 500. Beyond
  \<open>2 ^ 53\<close>: of \<open>2 ^ 53 + 2\<close> seats an application takes two. And where the
  cgpa is not a number: project 102 is approved and has seats, student 21 has two
  applications and none for it, and the answer is 500 with nothing written.
\<close>

theorem apply_duplicate_over_limit_counterexample:
  "map project (applicationsOf dbThreeApplications 21) = [100, 101, 102] \<and>
   map appStatus (applicationsOf dbThreeApplications 21) = [AppRejected, AppSelected, AppPending] \<and>
   list_ex (\<lambda>a. student a = 21 \<and> project a = 100) (applications dbThreeApplications) \<and>
   applyToProject dbThreeApplications (mkStudent 21 ''24CSE00001'') 100 None None 204
     = Inl (MoreThan3Projects, dbThreeApplications) \<and>
   run dbEmpty (take 5 halfSeatRequests) = dbHalfSeat \<and>
   map seatsAvailable (projects dbHalfSeat) = [Finite (1 / 2)] \<and>
   map aid (applications dbHalfSeat) = [200] \<and>
   applyToProject dbHalfSeat (mkStudent 22 ''24CSE00002'') 100 None None 201
     = Inl (ServerError ValidationFailed, dbHalfSeatApplied) \<and>
   map seatsAvailable (projects dbHalfSeatApplied) = [Finite (1 / 2)] \<and>
   map aid (applications dbHalfSeatApplied) = [200, 201] \<and>
   map seatsAvailable (projects dbManySeats) = [Finite (2 ^ 53 + 2)] \<and>
   applyToProject dbManySeats (mkStudent 21 ''24CSE00001'') 100 None None 200
     = Inr dbManySeatsApplied \<and>
   map seatsAvailable (projects dbManySeatsApplied) = [Finite (2 ^ 53)] \<and>
   map project (applicationsOf dbSelected 21) = [100, 101] \<and>
   map status (projects dbSelected) = [Approved, Approved, Approved] \<and>
   map seatsAvailable (projects dbSelected) = [Finite 0, Finite 1, Finite 2] \<and>
   applyToProject dbSelected (mkStudent 21 ''24CSE00001'') 102 (Some NaN) None 202
     = Inl (ServerError ValidationFailed, dbSelected)"
  using run_halfSeatRequests(1)
  by (simp add: demo_defs seat_demo_defs route_defs seat_route_defs applicationsOf_def)

section \<open>Seat accounting\<close>

subsection \<open>What the two routes that move seats write\<close>

lemma applyToProject_Inr:
  assumes "applyToProject d u i cg sk newId = Inr d'"
  obtains p where "findProject d i = Some p"
    and "\<not> jsLe (seatsAvailable p) (Finite 0)"
    and "jsLe (Finite 0) (jsMinus (seatsAvailable p) (Finite 1))"
    and "d' = saveProject (p\<lparr>seatsAvailable := jsMinus (seatsAvailable p) (Finite 1)\<rparr>)
                (d\<lparr>applications := applications d @
                     [\<lparr>aid = newId, student = uid u, project = i,
                       appStatus = AppPending, cgpa = cg, skills = sk\<rparr>]\<rparr>)"
  using assms
  by (auto simp: applyToProject_def Let_def split: if_splits option.splits)

lemma applyToProject_Inl:
  assumes "applyToProject d u i cg sk newId = Inl (e, d')"
  shows "projects d' = projects d"
    and "d' \<noteq> d \<Longrightarrow> \<exists>p. findProject d i = Some p \<and> \<not> jsLe (seatsAvailable p) (Finite 0) \<and>
           \<not> jsLe (Finite 0) (jsMinus (seatsAvailable p) (Finite 1))"
  using assms
  by (auto simp: applyToProject_def Let_def split: if_splits option.splits)

lemma rejectApplication_Inr:
  assumes "rejectApplication d u i = Inr d'"
  obtains a p where "findApplication d i = Some a"
    and "findProject d (project a) = Some p"
    and "jsLe (Finite 0) (jsPlus (seatsAvailable p) (Finite 1))"
    and "d' = saveProject (p\<lparr>seatsAvailable := jsPlus (seatsAvailable p) (Finite 1)\<rparr>)
                (saveApplication (a\<lparr>appStatus := AppRejected\<rparr>) d)"
proof -
  from assms obtain a p where a: "findApplication d i = Some a"
    and p: "findProject d (project a) = Some p" and f: "faculty p = uid u"
    by (auto simp: rejectApplication_def split: if_splits option.splits)
  have "findProject d (pid p) = Some p"
    using p findProject_pid [OF p] by simp
  with assms a p f that show ?thesis
    by (auto simp: rejectApplication_def Let_def split: if_splits)
qed

lemma rejectApplication_Inl:
  assumes "rejectApplication d u i = Inl (e, d')"
  shows "projects d' = projects d"
    and "d' \<noteq> d \<Longrightarrow> \<exists>a p. findApplication d i = Some a \<and> findProject d (project a) = Some p \<and>
           \<not> jsLe (Finite 0) (jsPlus (seatsAvailable p) (Finite 1))"
proof -
  show "projects d' = projects d"
    using assms
    by (auto simp: rejectApplication_def Let_def split: if_splits option.splits)
  assume ne: "d' \<noteq> d"
  with assms obtain a p where a: "findApplication d i = Some a"
    and p: "findProject d (project a) = Some p"
    by (auto simp: rejectApplication_def split: if_splits option.splits)
  have "findProject d (pid p) = Some p"
    using p findProject_pid [OF p] by simp
  with assms a p ne
  have "\<not> jsLe (Finite 0) (jsPlus (seatsAvailable p) (Finite 1))"
    by (auto simp: rejectApplication_def Let_def split: if_splits)
  with a p show "\<exists>a p. findApplication d i = Some a \<and> findProject d (project a) = Some p \<and>
           \<not> jsLe (Finite 0) (jsPlus (seatsAvailable p) (Finite 1))"
    by blast
qed

lemma answered_Inr: "answered d r = Inr d' \<Longrightarrow> r = Inr d'"
  by (cases r) (simp_all add: answered_def)

lemma answered_Inl: "answered d r = Inl (e, d') \<Longrightarrow> d' = d"
  by (cases r) (simp_all add: answered_def)

lemma withUser_Inr: "withUser d c route = Inr d' \<Longrightarrow> \<exists>u. route u = Inr d'"
  by (auto simp: withUser_def split: sum.splits)

lemma handle_Inr_cases:
  assumes "handle d r = Inr d'"
  shows "case r of
      CreateProject c ttl abstr tline sts newId \<Rightarrow>
        \<exists>u. createProject d u ttl abstr tline sts newId = Inr d'
    | ApproveProject c i \<Rightarrow> \<exists>u. approveProject d u i = Inr d'
    | RejectProject c i comment \<Rightarrow> \<exists>u. rejectProject d u i comment = Inr d'
    | ApplyToProject c i cg sk newId \<Rightarrow> \<exists>u. applyToProject d u i cg sk newId = Inr d'
    | SelectApplication c i \<Rightarrow> \<exists>u. selectApplication d u i = Inr d'
    | RejectApplication c i \<Rightarrow> \<exists>u. rejectApplication d u i = Inr d'"
  using assms
  by (cases r) (auto dest!: answered_Inr withUser_Inr split: sum.splits)

lemma handle_Inl_projects:
  assumes "handle d r = Inl (e, d')"
  shows "projects d' = projects d"
  using assms
  by (cases r)
     (auto dest: answered_Inl applyToProject_Inl(1) rejectApplication_Inl(1) split: sum.splits)

subsection \<open>The lower bound\<close>

lemma list_all_saveProject:
  assumes "list_all P (projects d)" and "P p'"
  shows "list_all P (projects (saveProject p' d))"
  using assms by (auto simp: saveProject_def list_all_iff)

lemma list_all_found:
  assumes "list_all P (projects d)" and "findProject d i = Some p"
  shows "P p"
  using assms findProject_mem [OF assms(2)] by (auto simp: list_all_iff)

lemma handle_keeps_nonneg:
  assumes "seatsNonNegative d" and "handle d r = Inr d'"
  shows "seatsNonNegative d'"
proof (cases r)
  case (CreateProject c ttl abstr tline sts newId)
  with handle_Inr_cases [OF assms(2)]
  obtain u where "createProject d u ttl abstr tline sts newId = Inr d'" by auto
  then show ?thesis
    using assms(1)
    by (auto elim!: createProject_Inr simp: seatsNonNegative_def validProject_def)
next
  case (ApproveProject c i)
  with handle_Inr_cases [OF assms(2)]
  obtain u where "approveProject d u i = Inr d'" by auto
  then obtain p where p: "findProject d i = Some p"
    and d': "d' = saveProject
           (if 3 \<le> length (reviewedBy p @ [uid u])
            then p\<lparr>reviewedBy := reviewedBy p @ [uid u], status := Approved\<rparr>
            else p\<lparr>reviewedBy := reviewedBy p @ [uid u]\<rparr>) d"
    by (rule approveProject_Inr)
  have "jsLe (Finite 0) (seatsAvailable p)"
    using list_all_found [OF assms(1) [unfolded seatsNonNegative_def] p] .
  then show ?thesis
    unfolding d' seatsNonNegative_def
    by (intro list_all_saveProject [OF assms(1) [unfolded seatsNonNegative_def]]) simp
next
  case (RejectProject c i comment)
  with handle_Inr_cases [OF assms(2)]
  obtain u where "rejectProject d u i comment = Inr d'" by auto
  then obtain p cm where p: "findProject d i = Some p"
    and d': "d' = incProjectsReviewed
                (\<lambda>x. areaOfResearch x = areaOfResearch u \<and> role x = Faculty) (- 1)
                (saveProject (p\<lparr>rejectionComments := rejectionComments p @ [(uid u, cm)],
                               status := Rejected\<rparr>) d)"
    by (rule rejectProject_Inr)
  have "jsLe (Finite 0) (seatsAvailable p)"
    using list_all_found [OF assms(1) [unfolded seatsNonNegative_def] p] .
  then show ?thesis
    unfolding d' seatsNonNegative_def projects_incProjectsReviewed
    by (intro list_all_saveProject [OF assms(1) [unfolded seatsNonNegative_def]]) simp
next
  case (ApplyToProject c i cg sk newId)
  with handle_Inr_cases [OF assms(2)]
  obtain u where "applyToProject d u i cg sk newId = Inr d'" by auto
  then obtain p where v: "jsLe (Finite 0) (jsMinus (seatsAvailable p) (Finite 1))"
    and d': "d' = saveProject (p\<lparr>seatsAvailable := jsMinus (seatsAvailable p) (Finite 1)\<rparr>)
                (d\<lparr>applications := applications d @
                     [\<lparr>aid = newId, student = uid u, project = i,
                       appStatus = AppPending, cgpa = cg, skills = sk\<rparr>]\<rparr>)"
    by (rule applyToProject_Inr)
  from assms(1) v show ?thesis
    unfolding d' seatsNonNegative_def
    by (intro list_all_saveProject) simp_all
next
  case (SelectApplication c i)
  with handle_Inr_cases [OF assms(2)]
  obtain u where "selectApplication d u i = Inr d'" by auto
  then have "projects d' = projects d"
    by (auto elim!: selectApplication_Inr)
  with assms(1) show ?thesis
    by (simp add: seatsNonNegative_def)
next
  case (RejectApplication c i)
  with handle_Inr_cases [OF assms(2)]
  obtain u where "rejectApplication d u i = Inr d'" by auto
  then obtain a p where v: "jsLe (Finite 0) (jsPlus (seatsAvailable p) (Finite 1))"
    and d': "d' = saveProject (p\<lparr>seatsAvailable := jsPlus (seatsAvailable p) (Finite 1)\<rparr>)
                (saveApplication (a\<lparr>appStatus := AppRejected\<rparr>) d)"
    by (rule rejectApplication_Inr)
  from assms(1) v show ?thesis
    unfolding d' seatsNonNegative_def
    by (intro list_all_saveProject) simp_all
qed

lemma step_keeps_nonneg:
  assumes "seatsNonNegative d"
  shows "seatsNonNegative (step d r)"
proof (cases "handle d r")
  case (Inl x)
  then obtain e d' where "handle d r = Inl (e, d')" by (cases x) simp
  with assms handle_Inl_projects [OF this] show ?thesis
    by (simp add: step_def seatsNonNegative_def)
next
  case (Inr d')
  with handle_keeps_nonneg [OF assms Inr] show ?thesis
    by (simp add: step_def)
qed

lemma run_keeps_nonneg: "seatsNonNegative d \<Longrightarrow> seatsNonNegative (run d rs)"
  unfolding run_def by (induction rs arbitrary: d) (simp_all add: step_keeps_nonneg)

subsection \<open>The upper bound\<close>

lemma holders_Nil [simp]: "holders [] R i = 0"
  by (simp add: holders_def)

lemma holders_Cons:
  "holders (x # apps) R i = (if project x = i \<and> aid x \<notin> set R then 1 else 0) + holders apps R i"
  by (simp add: holders_def)

lemma holders_append:
  "holders (apps @ [x]) R i = holders apps R i + (if project x = i \<and> aid x \<notin> set R then 1 else 0)"
  by (simp add: holders_def)

lemma holders_none: "i \<notin> set (map project apps) \<Longrightarrow> holders apps R i = 0"
  by (induction apps) (auto simp: holders_Cons)

lemma holders_other: "j \<notin> set (map aid apps) \<Longrightarrow> holders apps (j # R) i = holders apps R i"
  by (induction apps) (auto simp: holders_Cons)

lemma holders_reject:
  assumes "distinct (map aid apps)" and "a \<in> set apps" and "aid a \<notin> set R"
  shows "holders apps R i = holders apps (aid a # R) i + (if project a = i then 1 else 0)"
  using assms
proof (induction apps)
  case Nil
  then show ?case by simp
next
  case (Cons x apps)
  show ?case
  proof (cases "x = a")
    case True
    with Cons.prems have "aid a \<notin> set (map aid apps)" by simp
    then have "holders apps (aid a # R) i = holders apps R i" by (rule holders_other)
    with True Cons.prems(3) show ?thesis by (simp add: holders_Cons)
  next
    case False
    with Cons.prems have a: "a \<in> set apps" and ne: "aid x \<noteq> aid a" by auto
    from Cons.prems have "distinct (map aid apps)" by simp
    from Cons.IH [OF this a Cons.prems(3)] ne show ?thesis
      by (simp add: holders_Cons)
  qed
qed

lemma holders_ledger:
  assumes "map (\<lambda>a. (aid a, project a)) apps' = map (\<lambda>a. (aid a, project a)) apps"
  shows "holders apps' R i = holders apps R i"
proof -
  have "holders xs R i =
      length (filter (\<lambda>x. snd x = i \<and> fst x \<notin> set R) (map (\<lambda>a. (aid a, project a)) xs))" for xs
    by (simp add: holders_def filter_map comp_def)
  then show ?thesis by (simp only: assms)
qed

lemma ledger_saveApplication:
  assumes "distinct (map aid (applications d))" and "findApplication d i = Some a"
    and "aid a' = aid a" and "project a' = project a"
  shows "map (\<lambda>a. (aid a, project a)) (applications (saveApplication a' d)) =
         map (\<lambda>a. (aid a, project a)) (applications d)"
proof -
  have a: "a \<in> set (applications d)" by (rule findApplication_mem [OF assms(2)])
  have "b = a" if "b \<in> set (applications d)" and "aid b = aid a" for b
    using distinct_key_unique [OF assms(1) a that] .
  with assms(3,4) show ?thesis
    by (auto simp: saveApplication_def)
qed

lemma accountedE:
  assumes "accounted apps R p"
  obtains n :: int where "seats p = Finite (of_int n)" and "1 \<le> n" and "n \<le> 2 ^ 53"
    and "int (holders apps R (pid p)) \<le> n"
    and "seatsAvailable p = Finite (of_int (n - int (holders apps R (pid p))))"
proof -
  from assms obtain q where q: "seats p = Finite q" "wholeNumber (Finite q)" "1 \<le> q"
    "of_nat (holders apps R (pid p)) \<le> q"
    "seatsAvailable p = Finite (q - of_nat (holders apps R (pid p)))"
    by (auto simp: accounted_def split: number.splits)
  from q(2) obtain k where k: "Finite q = Finite (of_int k)" "\<bar>k\<bar> \<le> 2 ^ 53"
    by (rule wholeNumber_cases)
  from k(1) have qk: "q = of_int k" by simp
  have "of_nat (holders apps R (pid p)) = (of_int (int (holders apps R (pid p))) :: rat)"
    by simp
  with q(4) qk have h: "int (holders apps R (pid p)) \<le> k"
    by (simp only: of_int_le_iff)
  from q(3) qk have one: "1 \<le> k" by simp
  from k(2) have up: "k \<le> 2 ^ 53" by simp
  from q(5) qk have "seatsAvailable p = Finite (of_int (k - int (holders apps R (pid p))))"
    by simp
  with q(1) qk one up h that show ?thesis by blast
qed

lemma accountedI:
  assumes "seats p = Finite (of_int n)" and "1 \<le> n" and "n \<le> 2 ^ 53"
    and "int (holders apps R (pid p)) \<le> n"
    and "seatsAvailable p = Finite (of_int (n - int (holders apps R (pid p))))"
  shows "accounted apps R p"
proof -
  have "of_nat (holders apps R (pid p)) = (of_int (int (holders apps R (pid p))) :: rat)"
    by simp
  with assms(4) have "(of_nat (holders apps R (pid p)) :: rat) \<le> of_int n"
    by (simp only: of_int_le_iff)
  moreover from assms(2,3) have "wholeNumber (Finite (of_int n))"
  proof -
    from assms(2,3) have "\<bar>of_int n :: rat\<bar> \<le> of_int (2 ^ 53)"
      by (simp only: of_int_abs [symmetric] of_int_le_iff)
    then show ?thesis by (simp add: wholeNumber_def)
  qed
  moreover from assms(2) have "(1 :: rat) \<le> of_int n" by simp
  ultimately show ?thesis
    using assms(1,5) by (simp add: accounted_def)
qed

lemma accounted_cong:
  assumes "accounted apps R p" and "pid p' = pid p" and "seats p' = seats p"
    and "seatsAvailable p' = seatsAvailable p"
    and "holders apps' R' (pid p) = holders apps R (pid p)"
  shows "accounted apps' R' p'"
  using assms by (auto simp: accounted_def split: number.splits)

lemma accounted_within: "accounted apps R p \<Longrightarrow> jsLe (seatsAvailable p) (seats p)"
  by (erule accountedE) simp

lemma seatsAccountedI:
  assumes "distinct (map aid (applications d))"
    and "set R \<subseteq> set (map aid (applications d))"
    and "\<And>a. a \<in> set (applications d) \<Longrightarrow> project a \<in> set (map pid (projects d))"
    and "\<And>p. p \<in> set (projects d) \<Longrightarrow> accounted (applications d) R p"
  shows "seatsAccounted d R"
  using assms by (simp add: seatsAccounted_def list_all_iff)

lemma seatsAccountedD:
  assumes "seatsAccounted d R"
  shows "distinct (map aid (applications d))"
    and "set R \<subseteq> set (map aid (applications d))"
    and "\<And>a. a \<in> set (applications d) \<Longrightarrow> project a \<in> set (map pid (projects d))"
    and "\<And>p. p \<in> set (projects d) \<Longrightarrow> accounted (applications d) R p"
  using assms by (simp_all add: seatsAccounted_def list_all_iff)

lemma seatsAccounted_within: "seatsAccounted d R \<Longrightarrow> withinCapacity d"
  by (auto simp: seatsAccounted_def withinCapacity_def list_all_iff intro: accounted_within)

lemma pids_saveProject [simp]: "map pid (projects (saveProject p d)) = map pid (projects d)"
  by (simp add: saveProject_def comp_def)

text \<open>A write to a project that leaves its seats alone.\<close>

lemma saveProject_accounted:
  assumes inv: "seatsAccounted d R" and p: "findProject d i = Some p"
    and same: "pid p' = pid p" "seats p' = seats p" "seatsAvailable p' = seatsAvailable p"
  shows "seatsAccounted (saveProject p' d) R"
proof (rule seatsAccountedI)
  show "distinct (map aid (applications (saveProject p' d)))"
    using seatsAccountedD(1) [OF inv] by simp
  show "set R \<subseteq> set (map aid (applications (saveProject p' d)))"
    using seatsAccountedD(2) [OF inv] by simp
  show "project a \<in> set (map pid (projects (saveProject p' d)))"
    if "a \<in> set (applications (saveProject p' d))" for a
    using seatsAccountedD(3) [OF inv, of a] that by simp
  show "accounted (applications (saveProject p' d)) R q"
    if "q \<in> set (projects (saveProject p' d))" for q
  proof -
    have "accounted (applications d) R p"
      by (rule seatsAccountedD(4) [OF inv findProject_mem [OF p]])
    then have "accounted (applications d) R p'"
      using same by (rule accounted_cong) simp
    with that seatsAccountedD(4) [OF inv] show ?thesis
      by (auto simp: saveProject_def split: if_splits)
  qed
qed

lemma incProjectsReviewed_accounted [simp]:
  "seatsAccounted (incProjectsReviewed sel k d) R = seatsAccounted d R"
  by (simp add: seatsAccounted_def)

lemma createProject_accounted:
  assumes inv: "seatsAccounted d R"
    and ok: "createProject d u ttl abstr tline sts newId = Inr d'"
    and fresh: "newId \<notin> set (map pid (projects d))" and whole: "wholeNumber sts"
  shows "seatsAccounted d' R"
proof -
  let ?p = "\<lparr>pid = newId, title = ttl, abstract = abstr, timeline = tline,
           seats = sts, seatsAvailable = sts, faculty = uid u, status = Pending,
           reviewedBy = [], rejectionComments = []\<rparr>"
  from ok obtain reviewers :: "user list" where v: "validProject ?p"
    and d': "d' = incProjectsReviewed (\<lambda>x. uid x \<in> set (map uid reviewers)) 1
                (d\<lparr>projects := projects d @ [?p]\<rparr>)"
    by (rule createProject_Inr)
  from whole obtain k where k: "sts = Finite (of_int k)" "\<bar>k\<bar> \<le> 2 ^ 53"
    by (rule wholeNumber_cases)
  from v k have one: "1 \<le> k" by (simp add: validProject_def)
  have "newId \<notin> set (map project (applications d))"
    using seatsAccountedD(3) [OF inv] fresh by auto
  then have h: "holders (applications d) R newId = 0" by (rule holders_none)
  have new: "accounted (applications d) R ?p"
    by (rule accountedI [of _ k]) (use k one h in simp_all)
  have "seatsAccounted (d\<lparr>projects := projects d @ [?p]\<rparr>) R"
  proof (rule seatsAccountedI)
    show "distinct (map aid (applications (d\<lparr>projects := projects d @ [?p]\<rparr>)))"
      using seatsAccountedD(1) [OF inv] by simp
    show "set R \<subseteq> set (map aid (applications (d\<lparr>projects := projects d @ [?p]\<rparr>)))"
      using seatsAccountedD(2) [OF inv] by simp
    show "project a \<in> set (map pid (projects (d\<lparr>projects := projects d @ [?p]\<rparr>)))"
      if "a \<in> set (applications (d\<lparr>projects := projects d @ [?p]\<rparr>))" for a
      using seatsAccountedD(3) [OF inv, of a] that by simp
    show "accounted (applications (d\<lparr>projects := projects d @ [?p]\<rparr>)) R q"
      if "q \<in> set (projects (d\<lparr>projects := projects d @ [?p]\<rparr>))" for q
      using that seatsAccountedD(4) [OF inv, of q] new by auto
  qed
  then show ?thesis by (simp add: d')
qed

lemma approveProject_accounted:
  assumes inv: "seatsAccounted d R" and ok: "approveProject d u i = Inr d'"
  shows "seatsAccounted d' R"
proof -
  from ok obtain p where p: "findProject d i = Some p"
    and d': "d' = saveProject
           (if 3 \<le> length (reviewedBy p @ [uid u])
            then p\<lparr>reviewedBy := reviewedBy p @ [uid u], status := Approved\<rparr>
            else p\<lparr>reviewedBy := reviewedBy p @ [uid u]\<rparr>) d"
    by (rule approveProject_Inr)
  show ?thesis
    unfolding d' by (rule saveProject_accounted [OF inv p]) simp_all
qed

lemma rejectProject_accounted:
  assumes inv: "seatsAccounted d R" and ok: "rejectProject d u i comment = Inr d'"
  shows "seatsAccounted d' R"
proof -
  from ok obtain p cm where p: "findProject d i = Some p"
    and d': "d' = incProjectsReviewed
                (\<lambda>x. areaOfResearch x = areaOfResearch u \<and> role x = Faculty) (- 1)
                (saveProject (p\<lparr>rejectionComments := rejectionComments p @ [(uid u, cm)],
                               status := Rejected\<rparr>) d)"
    by (rule rejectProject_Inr)
  show ?thesis
    unfolding d' incProjectsReviewed_accounted
    by (rule saveProject_accounted [OF inv p]) simp_all
qed

text \<open>A write to the applications that keeps the id and the project of each.\<close>

lemma ledger_accounted:
  assumes inv: "seatsAccounted d R" and "projects d' = projects d"
    and l: "map (\<lambda>a. (aid a, project a)) (applications d') =
            map (\<lambda>a. (aid a, project a)) (applications d)"
  shows "seatsAccounted d' R"
proof -
  from l have "map fst (map (\<lambda>a. (aid a, project a)) (applications d')) =
      map fst (map (\<lambda>a. (aid a, project a)) (applications d))" by simp
  then have ids: "map aid (applications d') = map aid (applications d)"
    by (simp add: comp_def)
  from l have "map snd (map (\<lambda>a. (aid a, project a)) (applications d')) =
      map snd (map (\<lambda>a. (aid a, project a)) (applications d))" by simp
  then have prs: "map project (applications d') = map project (applications d)"
    by (simp add: comp_def)
  have h: "holders (applications d') R i = holders (applications d) R i" for i
    by (rule holders_ledger [OF l])
  show ?thesis
  proof (rule seatsAccountedI)
    show "distinct (map aid (applications d'))"
      using seatsAccountedD(1) [OF inv] by (simp add: ids)
    show "set R \<subseteq> set (map aid (applications d'))"
      using seatsAccountedD(2) [OF inv] by (simp add: ids)
    show "project a \<in> set (map pid (projects d'))" if "a \<in> set (applications d')" for a
    proof -
      from that have "project a \<in> set (map project (applications d'))" by simp
      then have "project a \<in> set (map project (applications d))" by (simp only: prs)
      then show ?thesis
        using seatsAccountedD(3) [OF inv] assms(2) by auto
    qed
    show "accounted (applications d') R q" if "q \<in> set (projects d')" for q
    proof -
      from that assms(2) have "accounted (applications d) R q"
        using seatsAccountedD(4) [OF inv] by simp
      then show ?thesis by (rule accounted_cong) (simp_all add: h)
    qed
  qed
qed

lemma selectApplication_accounted:
  assumes inv: "seatsAccounted d R" and ok: "selectApplication d u i = Inr d'"
  shows "seatsAccounted d' R"
proof -
  from ok obtain a and s :: user where a: "findApplication d i = Some a"
    and d': "d' = (saveApplication (a\<lparr>appStatus := AppSelected\<rparr>) d)
           \<lparr>applications :=
              map (\<lambda>b. if student b = uid s \<and> aid b \<noteq> aid a
                        then b\<lparr>appStatus := AppRejected\<rparr> else b)
                (applications (saveApplication (a\<lparr>appStatus := AppSelected\<rparr>) d))\<rparr>"
    by (rule selectApplication_Inr)
  have "map (\<lambda>a. (aid a, project a)) (applications d') =
      map (\<lambda>a. (aid a, project a)) (applications (saveApplication (a\<lparr>appStatus := AppSelected\<rparr>) d))"
    unfolding d' by (simp add: comp_def)
  also have "\<dots> = map (\<lambda>a. (aid a, project a)) (applications d)"
    by (rule ledger_saveApplication [OF seatsAccountedD(1) [OF inv] a]) simp_all
  finally show ?thesis
    by (rule ledger_accounted [OF inv, rotated]) (simp add: d')
qed

lemma accounted_seat_left:
  assumes "accounted apps R p" and "\<not> jsLe (seatsAvailable p) (Finite 0)"
  obtains n :: int where "seats p = Finite (of_int n)" and "1 \<le> n" and "n \<le> 2 ^ 53"
    and "int (holders apps R (pid p)) + 1 \<le> n"
    and "seatsAvailable p = Finite (of_int (n - int (holders apps R (pid p))))"
    and "jsMinus (seatsAvailable p) (Finite 1)
           = Finite (of_int (n - (int (holders apps R (pid p)) + 1)))"
proof -
  from assms(1) obtain n :: int where n: "seats p = Finite (of_int n)" "1 \<le> n" "n \<le> 2 ^ 53"
    "int (holders apps R (pid p)) \<le> n"
    "seatsAvailable p = Finite (of_int (n - int (holders apps R (pid p))))"
    by (rule accountedE)
  let ?h = "int (holders apps R (pid p))"
  from assms(2) n(5) have "\<not> (of_int (n - ?h) :: rat) \<le> 0" by simp
  then have pos: "0 < n - ?h" by (simp only: of_int_le_0_iff not_le)
  with n(3) have "\<bar>(n - ?h) - 1\<bar> \<le> 2 ^ 53" by simp
  then have "jsMinus (Finite (of_int (n - ?h))) (Finite 1) = Finite (of_int ((n - ?h) - 1))"
    by (rule jsMinus_whole)
  then have "jsMinus (seatsAvailable p) (Finite 1) = Finite (of_int (n - (?h + 1)))"
    by (simp add: n(5) algebra_simps)
  moreover from pos have "?h + 1 \<le> n" by simp
  ultimately show ?thesis using n that by blast
qed

lemma applyToProject_fails_whole:
  assumes inv: "seatsAccounted d R" and "applyToProject d u i cg sk newId = Inl (e, d')"
  shows "d' = d"
proof (rule ccontr)
  assume "d' \<noteq> d"
  with applyToProject_Inl(2) [OF assms(2)] obtain p where p: "findProject d i = Some p"
    and pos: "\<not> jsLe (seatsAvailable p) (Finite 0)"
    and neg: "\<not> jsLe (Finite 0) (jsMinus (seatsAvailable p) (Finite 1))"
    by blast
  have "accounted (applications d) R p"
    by (rule seatsAccountedD(4) [OF inv findProject_mem [OF p]])
  from this pos obtain n :: int where "int (holders (applications d) R (pid p)) + 1 \<le> n"
    and "jsMinus (seatsAvailable p) (Finite 1)
           = Finite (of_int (n - (int (holders (applications d) R (pid p)) + 1)))"
    by (rule accounted_seat_left)
  with neg show False by simp
qed

lemma applyToProject_accounted:
  assumes inv: "seatsAccounted d R" and ok: "applyToProject d u i cg sk newId = Inr d'"
    and fresh: "newId \<notin> set (map aid (applications d))"
  shows "seatsAccounted d' R"
proof -
  let ?a = "\<lparr>aid = newId, student = uid u, project = i,
             appStatus = AppPending, cgpa = cg, skills = sk\<rparr>"
  let ?apps = "applications d @ [?a]"
  from ok obtain p where p: "findProject d i = Some p"
    and pos: "\<not> jsLe (seatsAvailable p) (Finite 0)"
    and d': "d' = saveProject (p\<lparr>seatsAvailable := jsMinus (seatsAvailable p) (Finite 1)\<rparr>)
                (d\<lparr>applications := ?apps\<rparr>)"
    by (rule applyToProject_Inr)
  let ?p = "p\<lparr>seatsAvailable := jsMinus (seatsAvailable p) (Finite 1)\<rparr>"
  have pid: "pid p = i" by (rule findProject_pid [OF p])
  have mem: "p \<in> set (projects d)" by (rule findProject_mem [OF p])
  have newR: "newId \<notin> set R"
    using seatsAccountedD(2) [OF inv] fresh by auto
  have h: "holders ?apps R j = holders (applications d) R j + (if j = i then 1 else 0)" for j
    using newR by (auto simp: holders_append)
  have "accounted (applications d) R p"
    by (rule seatsAccountedD(4) [OF inv mem])
  from this pos obtain n :: int where n: "seats p = Finite (of_int n)" "1 \<le> n" "n \<le> 2 ^ 53"
    "int (holders (applications d) R (pid p)) + 1 \<le> n"
    "jsMinus (seatsAvailable p) (Finite 1)
           = Finite (of_int (n - (int (holders (applications d) R (pid p)) + 1)))"
    by (rule accounted_seat_left)
  have new: "accounted ?apps R ?p"
    by (rule accountedI [of _ n]) (use n pid in \<open>simp_all add: h\<close>)
  have apps: "applications d' = ?apps" and prs: "projects d' =
      map (\<lambda>q. if pid q = i then ?p else q) (projects d)"
    by (simp_all add: d' saveProject_def pid)
  show ?thesis
  proof (rule seatsAccountedI)
    show "distinct (map aid (applications d'))"
      using seatsAccountedD(1) [OF inv] fresh by (simp add: apps)
    show "set R \<subseteq> set (map aid (applications d'))"
      using seatsAccountedD(2) [OF inv] by (auto simp: apps)
    show "project a \<in> set (map pid (projects d'))" if "a \<in> set (applications d')" for a
    proof -
      have "map pid (projects d') = map pid (projects d)"
        by (simp add: d')
      moreover have "i \<in> set (map pid (projects d))"
        using mem pid by force
      ultimately show ?thesis
        using that seatsAccountedD(3) [OF inv, of a] by (auto simp: apps)
    qed
    show "accounted (applications d') R q" if "q \<in> set (projects d')" for q
    proof -
      from that consider "q = ?p" | "q \<in> set (projects d)" "pid q \<noteq> i"
        by (auto simp: prs split: if_splits)
      then show ?thesis
      proof cases
        case 1
        with new show ?thesis by (simp add: apps)
      next
        case 2
        from seatsAccountedD(4) [OF inv 2(1)] show ?thesis
          unfolding apps by (rule accounted_cong) (simp_all add: h 2(2))
      qed
    qed
  qed
qed

lemma rejectApplication_fails_whole:
  assumes inv: "seatsAccounted d R" and "rejectApplication d u i = Inl (e, d')"
  shows "d' = d"
proof (rule ccontr)
  assume "d' \<noteq> d"
  with rejectApplication_Inl(2) [OF assms(2)] obtain a :: application and p :: project
    where p: "findProject d (project a) = Some p"
    and neg: "\<not> jsLe (Finite 0) (jsPlus (seatsAvailable p) (Finite 1))"
    by blast
  have "accounted (applications d) R p"
    by (rule seatsAccountedD(4) [OF inv findProject_mem [OF p]])
  then obtain n :: int where "int (holders (applications d) R (pid p)) \<le> n"
    and "seatsAvailable p = Finite (of_int (n - int (holders (applications d) R (pid p))))"
    by (rule accountedE)
  then have "jsLe (Finite 0) (seatsAvailable p)" by simp
  then have "jsLe (Finite 0) (jsPlus (seatsAvailable p) (Finite 1))"
    by (rule jsPlus_one_nonneg)
  with neg show False by simp
qed

lemma rejectApplication_accounted:
  assumes inv: "seatsAccounted d R" and ok: "rejectApplication d u i = Inr d'"
    and once: "i \<notin> set R"
  shows "seatsAccounted d' (i # R)"
proof -
  from ok obtain a p where a: "findApplication d i = Some a"
    and p: "findProject d (project a) = Some p"
    and d': "d' = saveProject (p\<lparr>seatsAvailable := jsPlus (seatsAvailable p) (Finite 1)\<rparr>)
                (saveApplication (a\<lparr>appStatus := AppRejected\<rparr>) d)"
    by (rule rejectApplication_Inr)
  let ?p = "p\<lparr>seatsAvailable := jsPlus (seatsAvailable p) (Finite 1)\<rparr>"
  let ?d1 = "saveApplication (a\<lparr>appStatus := AppRejected\<rparr>) d"
  have aid: "aid a = i" by (rule findApplication_aid [OF a])
  have amem: "a \<in> set (applications d)" by (rule findApplication_mem [OF a])
  have pid: "pid p = project a" by (rule findProject_pid [OF p])
  have mem: "p \<in> set (projects d)" by (rule findProject_mem [OF p])
  have dist: "distinct (map aid (applications d))" by (rule seatsAccountedD(1) [OF inv])
  have l: "map (\<lambda>a. (aid a, project a)) (applications ?d1) =
      map (\<lambda>a. (aid a, project a)) (applications d)"
    by (rule ledger_saveApplication [OF dist a]) simp_all
  from l have "map fst (map (\<lambda>a. (aid a, project a)) (applications ?d1)) =
      map fst (map (\<lambda>a. (aid a, project a)) (applications d))" by simp
  then have ids: "map aid (applications ?d1) = map aid (applications d)"
    by (simp add: comp_def)
  from l have "map snd (map (\<lambda>a. (aid a, project a)) (applications ?d1)) =
      map snd (map (\<lambda>a. (aid a, project a)) (applications d))" by simp
  then have prs: "map project (applications ?d1) = map project (applications d)"
    by (simp add: comp_def)
  have h: "holders (applications d) R j
      = holders (applications ?d1) (i # R) j + (if project a = j then 1 else 0)" for j
    using holders_reject [OF dist amem, of R j] once aid
      holders_ledger [OF l, of "i # R" j] by simp
  have "accounted (applications d) R p"
    by (rule seatsAccountedD(4) [OF inv mem])
  then obtain n :: int where n: "seats p = Finite (of_int n)" "1 \<le> n" "n \<le> 2 ^ 53"
    "int (holders (applications d) R (pid p)) \<le> n"
    "seatsAvailable p = Finite (of_int (n - int (holders (applications d) R (pid p))))"
    by (rule accountedE)
  let ?h = "int (holders (applications d) R (pid p))"
  let ?h' = "int (holders (applications ?d1) (i # R) (pid p))"
  from h [of "pid p"] pid have hh: "?h = ?h' + 1" by simp
  with n(2,3,4) have "\<bar>(n - ?h) + 1\<bar> \<le> 2 ^ 53" by simp
  then have "jsPlus (Finite (of_int (n - ?h))) (Finite 1) = Finite (of_int ((n - ?h) + 1))"
    by (rule jsPlus_whole)
  with hh have plus: "jsPlus (seatsAvailable p) (Finite 1) = Finite (of_int (n - ?h'))"
    by (simp add: n(5))
  have new: "accounted (applications ?d1) (i # R) ?p"
    by (rule accountedI [of _ n]) (use n hh plus in simp_all)
  have apps: "applications d' = applications ?d1" and projs: "projects d' =
      map (\<lambda>q. if pid q = project a then ?p else q) (projects d)"
    by (simp_all add: d' saveProject_def pid)
  show ?thesis
  proof (rule seatsAccountedI)
    show "distinct (map aid (applications d'))"
      using dist by (simp only: apps ids)
    have "map aid (applications d') = map aid (applications d)"
      by (simp only: apps ids)
    then show "set (i # R) \<subseteq> set (map aid (applications d'))"
      using seatsAccountedD(2) [OF inv] amem aid by auto
    show "project b \<in> set (map pid (projects d'))" if "b \<in> set (applications d')" for b
    proof -
      from that have "project b \<in> set (map project (applications ?d1))"
        by (simp add: apps)
      then have "project b \<in> set (map project (applications d))" by (simp only: prs)
      moreover have "map pid (projects d') = map pid (projects d)"
        by (simp add: d')
      ultimately show ?thesis
        using seatsAccountedD(3) [OF inv] by auto
    qed
    show "accounted (applications d') (i # R) q" if "q \<in> set (projects d')" for q
    proof -
      from that consider "q = ?p" | "q \<in> set (projects d)" "pid q \<noteq> project a"
        by (auto simp: projs split: if_splits)
      then show ?thesis
      proof cases
        case 1
        with new show ?thesis by (simp only: apps)
      next
        case 2
        from seatsAccountedD(4) [OF inv 2(1)] show ?thesis
          unfolding apps by (rule accounted_cong) (use h [of "pid q"] 2(2) in simp_all)
      qed
    qed
  qed
qed

text \<open>One request of an admissible sequence.\<close>

lemma step_accounted:
  assumes inv: "seatsAccounted d R" and adm: "admissible d R (r # rs)"
  shows "\<exists>R'. seatsAccounted (step d r) R' \<and> admissible (step d r) R' rs"
proof (cases "handle d r")
  case (Inl x)
  then obtain e d' where f: "handle d r = Inl (e, d')" by (cases x) simp
  have "d' = d"
  proof (cases r)
    case (ApplyToProject c i cg sk newId)
    with f have "d' = d \<or> (\<exists>u. applyToProject d u i cg sk newId = Inl (e, d'))"
      by (auto split: sum.splits)
    with inv show ?thesis by (auto dest: applyToProject_fails_whole)
  next
    case (RejectApplication c i)
    with f have "d' = d \<or> (\<exists>u. rejectApplication d u i = Inl (e, d'))"
      by (auto split: sum.splits)
    with inv show ?thesis by (auto dest: rejectApplication_fails_whole)
  qed (use f in \<open>auto dest: answered_Inl\<close>)
  with f have s: "step d r = d" by (simp add: step_def)
  from f have "\<not> succeeds d r" by (simp add: succeeds_def)
  with adm s have "admissible (step d r) R rs"
    by (cases r) simp_all
  with inv s show ?thesis by auto
next
  case (Inr d')
  then have s: "step d r = d'" by (simp add: step_def)
  from Inr have ok: "succeeds d r" by (simp add: succeeds_def)
  show ?thesis
  proof (cases r)
    case (CreateProject c ttl abstr tline sts newId)
    with handle_Inr_cases [OF Inr]
    obtain u where "createProject d u ttl abstr tline sts newId = Inr d'" by auto
    with inv have "seatsAccounted d' R"
      by (rule createProject_accounted) (use adm CreateProject in simp_all)
    with adm CreateProject s show ?thesis by auto
  next
    case (ApproveProject c i)
    with handle_Inr_cases [OF Inr]
    obtain u where "approveProject d u i = Inr d'" by auto
    with inv have "seatsAccounted d' R" by (rule approveProject_accounted)
    with adm ApproveProject s show ?thesis by auto
  next
    case (RejectProject c i comment)
    with handle_Inr_cases [OF Inr]
    obtain u where "rejectProject d u i comment = Inr d'" by auto
    with inv have "seatsAccounted d' R" by (rule rejectProject_accounted)
    with adm RejectProject s show ?thesis by auto
  next
    case (ApplyToProject c i cg sk newId)
    with handle_Inr_cases [OF Inr]
    obtain u where "applyToProject d u i cg sk newId = Inr d'" by auto
    with inv have "seatsAccounted d' R"
      by (rule applyToProject_accounted) (use adm ApplyToProject in simp)
    with adm ApplyToProject s show ?thesis by auto
  next
    case (SelectApplication c i)
    with handle_Inr_cases [OF Inr]
    obtain u where "selectApplication d u i = Inr d'" by auto
    with inv have "seatsAccounted d' R" by (rule selectApplication_accounted)
    with adm SelectApplication s show ?thesis by auto
  next
    case (RejectApplication c i)
    with handle_Inr_cases [OF Inr]
    obtain u where "rejectApplication d u i = Inr d'" by auto
    moreover from adm ok RejectApplication have once: "i \<notin> set R"
      and rest: "admissible (step d r) (i # R) rs" by simp_all
    ultimately have "seatsAccounted d' (i # R)"
      using inv by (intro rejectApplication_accounted)
    with rest s show ?thesis by auto
  qed
qed

lemma run_accounted:
  "seatsAccounted d R \<Longrightarrow> admissible d R rs \<Longrightarrow> \<exists>R'. seatsAccounted (run d rs) R'"
proof (induction rs arbitrary: d R)
  case Nil
  then show ?case by (auto simp: run_def)
next
  case (Cons r rs)
  from step_accounted [OF Cons.prems] obtain R'
    where "seatsAccounted (step d r) R'" "admissible (step d r) R' rs" by blast
  from Cons.IH [OF this] show ?case by (simp add: run_def)
qed

lemma run_within_capacity:
  assumes "projects d = []" and "applications d = []" and "admissible d [] rs"
  shows "withinCapacity (run d rs)"
proof -
  from assms(1,2) have "seatsAccounted d []" by (simp add: seatsAccounted_def)
  from run_accounted [OF this assms(3)] show ?thesis
    by (auto intro: seatsAccounted_within)
qed

lemma rejectApplication_adds_seat:
  assumes "rejectApplication d u j = Inr d'" and "findApplication d j = Some a"
    and "findProject d (project a) = Some p"
  shows "findProject d' (project a)
           = Some (p\<lparr>seatsAvailable := jsPlus (seatsAvailable p) (Finite 1)\<rparr>)"
proof -
  from assms(1) obtain a' p' where a': "findApplication d j = Some a'"
    and p': "findProject d (project a') = Some p'"
    and d': "d' = saveProject (p'\<lparr>seatsAvailable := jsPlus (seatsAvailable p') (Finite 1)\<rparr>)
                (saveApplication (a'\<lparr>appStatus := AppRejected\<rparr>) d)"
    by (rule rejectApplication_Inr)
  from a' assms(2) have "a' = a" by simp
  with p' assms(3) have "p' = p" by simp
  have "findProject (saveApplication (a\<lparr>appStatus := AppRejected\<rparr>) d) (project a) = Some p"
    using assms(3) by simp
  then show ?thesis
    unfolding d' \<open>a' = a\<close> \<open>p' = p\<close>
    by (rule findProject_saveProject) (simp add: findProject_pid [OF assms(3)])
qed

lemma admissible_demoRequests: "admissible dbEmpty [] (take 6 demoRequests)"
proof -
  have "succeeds dbApplied (RejectApplication 11 200)"
    by (simp add: succeeds_def demo_defs route_defs seat_route_defs)
  moreover have "100 \<notin> set (map pid (projects dbEmpty))" "wholeNumber (Finite 1)"
    "200 \<notin> set (map aid (applications dbApproved))"
    by (simp_all add: demo_defs wholeNumber_def)
  ultimately show ?thesis
    unfolding take_demoRequests by (simp only: admissible.simps demo_steps) simp
qed




end
